theory Spec2Isabelle
  imports Main "HOL-Library.AList" "HOL-Library.Sublist"
begin

section \<open>Python strings\<close>

text \<open>
  Python \<^verbatim>\<open>sub in s\<close> on strings: \<open>sub\<close> occurs in \<open>s\<close> as a contiguous block.
\<close>

fun py_in :: "string \<Rightarrow> string \<Rightarrow> bool" where
  "py_in sub [] = (sub = [])"
| "py_in sub (c # cs) = (prefix sub (c # cs) \<or> py_in sub cs)"

text \<open>
  \<^verbatim>\<open>str.lower()\<close> on ASCII text: a capital letter gets bit 5 set (its code plus 32),
  every other character stays. Python also lowercases letters outside ASCII; the
  phrases the router looks for are ASCII.
\<close>

definition lower_char :: "char \<Rightarrow> char" where
  "lower_char c =
     (if c \<in> set ''ABCDEFGHIJKLMNOPQRSTUVWXYZ''
      then (case c of Char b0 b1 b2 b3 b4 b5 b6 b7 \<Rightarrow> Char b0 b1 b2 b3 b4 True b6 b7)
      else c)"

definition lower :: "string \<Rightarrow> string" where
  "lower s = map lower_char s"

section \<open>Errors\<close>

text \<open>
  Every exception the modelled code can raise. The three exceptions of
  \<^verbatim>\<open>run_analysis\<close> are plain \<^verbatim>\<open>Exception\<close>s told apart by their message:
  \<open>RunFailed s\<close> is \<^verbatim>\<open>Exception(f"Run failed with status: {s}")\<close>,
  \<open>MaxRetries\<close> is \<^verbatim>\<open>Exception("Max retries reached")\<close> and
  \<open>MaxRetriesAfter e\<close> is \<^verbatim>\<open>Exception(f"Max retries reached: {str(e)}")\<close>.
  \<open>BackendError\<close> is whatever a call of the OpenAI client (or \<^verbatim>\<open>open\<close>) raises.
\<close>

datatype error =
    IndexError
  | KeyError string
  | ValueError string
  | BackendError
  | RunFailed string
  | MaxRetries
  | MaxRetriesAfter error

section \<open>The graph router's supervisor\<close>

text \<open>
  \<^verbatim>\<open>tests/multi-actor-orchestration.py\<close>, \<^verbatim>\<open>Orchestrator._supervisor_node\<close>.
  A message of the transcript has a content and the name of the actor that produced it
  (\<^verbatim>\<open>HumanMessage(content=..., name=...)\<close>; the initial query has no name).
\<close>

record graph_message =
  msg_content :: string
  msg_name :: "string option"

definition completion_phrases :: "string list" where
  "completion_phrases =
     [''analysis complete'', ''task finished'', ''final recommendation'', ''conclusion reached'']"

text \<open>
  The three blocks of \<^verbatim>\<open>get_next_actor\<close> after the completion check, last first.
  Each \<^verbatim>\<open>if\<close> of the source holds an inner \<^verbatim>\<open>if\<close> without \<^verbatim>\<open>else\<close>; when the inner
  test fails control falls through to the next block.
\<close>

definition alternate :: "string option \<Rightarrow> string" where
  "alternate last_actor =
     (if last_actor = Some ''customer_specialist''
      then ''organization_specialist'' else ''customer_specialist'')"

definition route_customer :: "string \<Rightarrow> string option \<Rightarrow> string" where
  "route_customer last_message last_actor =
     (if py_in ''customer'' last_message \<or> py_in ''individual'' last_message
      then (if last_actor \<noteq> Some ''customer_specialist''
            then ''customer_specialist''
            else alternate last_actor)
      else alternate last_actor)"

definition route_organization :: "string \<Rightarrow> string option \<Rightarrow> string" where
  "route_organization last_message last_actor =
     (if py_in ''organization'' last_message \<or> py_in ''company'' last_message
      then (if last_actor \<noteq> Some ''organization_specialist''
            then ''organization_specialist''
            else route_customer last_message last_actor)
      else route_customer last_message last_actor)"

text \<open>
  \<^verbatim>\<open>get_next_actor(state)\<close>, returning the value stored under \<^verbatim>\<open>"next"\<close>.
  \<^verbatim>\<open>state["messages"][-1]\<close> is read before the emptiness test of the second line, so an
  empty transcript raises \<^verbatim>\<open>IndexError\<close>.
\<close>

definition get_next_actor :: "graph_message list \<Rightarrow> error + string" where
  "get_next_actor messages =
     (if messages = [] then Inl IndexError
      else
        let last_message = lower (msg_content (last messages));
            last_actor = msg_name (last messages)
        in if list_ex (\<lambda>phrase. py_in phrase last_message) completion_phrases
           then Inr ''FINISH''
           else Inr (route_organization last_message last_actor))"

text \<open>
  The routing rules as the specification words them: four rules tried in order on the
  lowercased message and the name of the previous actor.
\<close>

definition supervisor_rules :: "string \<Rightarrow> string option \<Rightarrow> string" where
  "supervisor_rules m prev =
     (if py_in ''analysis complete'' m \<or> py_in ''task finished'' m
         \<or> py_in ''final recommendation'' m \<or> py_in ''conclusion reached'' m
      then ''FINISH''
      else if (py_in ''organization'' m \<or> py_in ''company'' m)
              \<and> prev \<noteq> Some ''organization_specialist''
      then ''organization_specialist''
      else if (py_in ''customer'' m \<or> py_in ''individual'' m)
              \<and> prev \<noteq> Some ''customer_specialist''
      then ''customer_specialist''
      else if prev = Some ''customer_specialist''
      then ''organization_specialist''
      else ''customer_specialist'')"

definition mentions_completion :: "string \<Rightarrow> bool" where
  "mentions_completion m =
     (py_in ''analysis complete'' m \<or> py_in ''task finished'' m
      \<or> py_in ''final recommendation'' m \<or> py_in ''conclusion reached'' m)"

section \<open>The backend\<close>

text \<open>
  The hosted assistant service is outside the program. Its replies are parameters of the
  model: one \<open>backend\<close> value holds what the client's methods answer during one call of
  an actor's method, \<open>None\<close> (or \<open>False\<close>) standing for a call that raises. The text of
  a request (prompt, instructions) reaches the program again only through these replies,
  so a request is logged by its kind and the ids it carries.
\<close>

datatype backend_call =
    FilesCreate string
  | AssistantsCreate "string list"
  | ThreadsCreate
  | MessagesCreate string
  | RunsCreate string "string option"
  | RunsRetrieve string string
  | MessagesList string
  | FilesDelete string

text \<open>One answer of \<^verbatim>\<open>runs.retrieve\<close>: a run with a status, or an exception.\<close>

datatype poll = Status string | RetrieveRaises

text \<open>
  A content part of a message is told apart by its attributes
  (\<^verbatim>\<open>hasattr(content, 'text')\<close>, \<^verbatim>\<open>hasattr(content, 'image_file')\<close>).
\<close>

datatype content_part = Text string | ImageFile | OtherPart

record message =
  role :: string
  parts :: "content_part list"

text \<open>
  \<open>files_create k p\<close> answers the \<open>k\<close>-th upload of one \<^verbatim>\<open>initialize\<close> for path \<open>p\<close>
  (\<open>None\<close> also when \<^verbatim>\<open>open\<close> fails); \<open>runs_retrieve\<close> lists the answers of the
  successive status polls; \<open>files_delete f\<close> tells whether deleting \<open>f\<close> succeeds.
\<close>

record backend =
  files_create :: "nat \<Rightarrow> string \<Rightarrow> string option"
  assistants_create :: "string option"
  threads_create :: "string option"
  messages_create :: bool
  runs_create :: "string option"
  runs_retrieve :: "poll list"
  messages_list :: "message list option"
  files_delete :: "string \<Rightarrow> bool"

section \<open>The actor\<close>

text \<open>
  \<^verbatim>\<open>base.py\<close>, class \<^verbatim>\<open>CodeInterpreterAgent\<close> (both versions). The fields that only
  travel to the backend or to the console (name, instructions, model, temperature,
  tools, verbose) are left out. \<^verbatim>\<open>file_mapping\<close> is a \<^verbatim>\<open>dict\<close>: an association list in
  insertion order, written with \<open>AList.update\<close> (a present key keeps its place).
\<close>

record file_info =
  filename :: string
  path :: string

record actor =
  files :: "string list"
  file_mapping :: "(string \<times> file_info) list"
  assistant_id :: "string option"

text \<open>Python truthiness of an optional string: \<^verbatim>\<open>None\<close> and \<^verbatim>\<open>""\<close> are false.\<close>

definition truthy :: "string option \<Rightarrow> bool" where
  "truthy x = (case x of None \<Rightarrow> False | Some s \<Rightarrow> s \<noteq> [])"

text \<open>\<^verbatim>\<open>Path(file_path).name\<close> of a path that \<^verbatim>\<open>open\<close> accepted: the text after the last slash.\<close>

definition basename :: "string \<Rightarrow> string" where
  "basename p = rev (takeWhile (\<lambda>c. c \<noteq> CHR ''/'') (rev p))"

text \<open>
  A method returns its value or the exception it raised, the actor as the method left
  it (mutations made before a raise stay), and the backend calls it made.
\<close>

type_synonym 'a outcome = "(error + 'a) \<times> actor \<times> backend_call list"

definition upload_file :: "backend \<Rightarrow> nat \<Rightarrow> actor \<Rightarrow> string \<Rightarrow> string outcome" where
  "upload_file b k a file_path =
     (case files_create b k file_path of
        None \<Rightarrow> (Inl BackendError, a, [FilesCreate file_path])
      | Some file_id \<Rightarrow>
          (Inr file_id,
           a\<lparr>file_mapping :=
               AList.update file_id \<lparr>filename = basename file_path, path = file_path\<rparr>
                 (file_mapping a)\<rparr>,
           [FilesCreate file_path]))"

text \<open>The upload loop of \<^verbatim>\<open>initialize\<close>; \<open>file_ids\<close> and \<open>log\<close> are what it has collected.\<close>

fun upload_all ::
  "backend \<Rightarrow> string list \<Rightarrow> string list \<Rightarrow> actor \<Rightarrow> backend_call list
     \<Rightarrow> (string list) outcome" where
  "upload_all b [] file_ids a log = (Inr file_ids, a, log)"
| "upload_all b (file_path # rest) file_ids a log =
     (case upload_file b (length file_ids) a file_path of
        (Inl e, a', calls) \<Rightarrow> (Inl e, a', log @ calls)
      | (Inr file_id, a', calls) \<Rightarrow> upload_all b rest (file_ids @ [file_id]) a' (log @ calls))"

text \<open>
  \<^verbatim>\<open>initialize\<close>. There is no test of \<^verbatim>\<open>assistant_id\<close> in it. Version 1 sends the file ids
  under \<^verbatim>\<open>tool_resources\<close> when there are any, version 2 as \<^verbatim>\<open>file_ids\<close>.
\<close>

definition initialize :: "backend \<Rightarrow> actor \<Rightarrow> unit outcome" where
  "initialize b a =
     (case upload_all b (files a) [] a [] of
        (Inl e, a', log) \<Rightarrow> (Inl e, a', log)
      | (Inr file_ids, a', log) \<Rightarrow>
          (case assistants_create b of
             None \<Rightarrow> (Inl BackendError, a', log @ [AssistantsCreate file_ids])
           | Some new_id \<Rightarrow>
               (Inr (), a'\<lparr>assistant_id := Some new_id\<rparr>, log @ [AssistantsCreate file_ids])))"

text \<open>
  What \<^verbatim>\<open>run_analysis\<close> returns: the dictionary with \<^verbatim>\<open>content\<close>, \<^verbatim>\<open>thread_id\<close> and
  \<^verbatim>\<open>run_id\<close>, or \<^verbatim>\<open>{"error": "No assistant response found"}\<close>.
\<close>

datatype analysis_result =
    Reply (reply_content: string) (reply_thread: string) (reply_run: string)
  | NoResponse

text \<open>\<^verbatim>\<open>sep.join(xs)\<close>.\<close>

fun py_join :: "string \<Rightarrow> string list \<Rightarrow> string" where
  "py_join sep [] = []"
| "py_join sep [x] = x"
| "py_join sep (x # y # ys) = x @ sep @ py_join sep (y # ys)"

definition nl :: string where
  "nl = [CHR 0x0A]"

subsection \<open>Waiting for the run\<close>

definition failure_statuses :: "string list" where
  "failure_statuses = [''failed'', ''expired'', ''cancelled'']"

text \<open>
  Version 2: \<^verbatim>\<open>while True\<close> around \<^verbatim>\<open>runs.retrieve\<close>, left by \<^verbatim>\<open>break\<close> on
  \<^verbatim>\<open>completed\<close> and by \<^verbatim>\<open>raise\<close> on a failure status. The result is \<open>None\<close> when the
  listed polls end before the loop does: the loop would go on polling.
\<close>

fun wait_v2 ::
  "string \<Rightarrow> string \<Rightarrow> poll list \<Rightarrow> backend_call list
     \<Rightarrow> ((error + unit) \<times> backend_call list) option" where
  "wait_v2 t r [] log = None"
| "wait_v2 t r (RetrieveRaises # polls) log =
     Some (Inl BackendError, log @ [RunsRetrieve t r])"
| "wait_v2 t r (Status s # polls) log =
     (if s = ''completed'' then Some (Inr (), log @ [RunsRetrieve t r])
      else if s \<in> set failure_statuses then Some (Inl (RunFailed s), log @ [RunsRetrieve t r])
      else wait_v2 t r polls (log @ [RunsRetrieve t r]))"

text \<open>
  Version 1: the body of the \<^verbatim>\<open>try\<close> block for one poll. Both \<^verbatim>\<open>raise\<close> statements
  stand inside the \<^verbatim>\<open>try\<close>, as does \<^verbatim>\<open>runs.retrieve\<close>.
\<close>

datatype try_result = Break | Sleep | Raised error

definition try_poll :: "int \<Rightarrow> int \<Rightarrow> poll \<Rightarrow> try_result" where
  "try_poll max_retries retries p =
     (case p of
        RetrieveRaises \<Rightarrow> Raised BackendError
      | Status s \<Rightarrow>
          if s = ''completed'' then Break
          else if s \<in> set failure_statuses then Raised (RunFailed s)
          else if retries \<ge> max_retries then Raised MaxRetries
          else Sleep)"

text \<open>
  The loop with its handler: \<^verbatim>\<open>except Exception as e\<close> counts a retry, raises
  \<^verbatim>\<open>Max retries reached: ...\<close> when the count equals \<^verbatim>\<open>max_retries\<close> and polls again
  otherwise.
\<close>

fun wait_v1 ::
  "int \<Rightarrow> int \<Rightarrow> string \<Rightarrow> string \<Rightarrow> poll list \<Rightarrow> backend_call list
     \<Rightarrow> ((error + unit) \<times> backend_call list) option" where
  "wait_v1 max_retries retries t r [] log = None"
| "wait_v1 max_retries retries t r (p # polls) log =
     (case try_poll max_retries retries p of
        Break \<Rightarrow> Some (Inr (), log @ [RunsRetrieve t r])
      | Sleep \<Rightarrow> wait_v1 max_retries retries t r polls (log @ [RunsRetrieve t r])
      | Raised e \<Rightarrow>
          if retries + 1 = max_retries
          then Some (Inl (MaxRetriesAfter e), log @ [RunsRetrieve t r])
          else wait_v1 max_retries (retries + 1) t r polls (log @ [RunsRetrieve t r]))"

subsection \<open>Reading the answer\<close>

definition is_assistant :: "message \<Rightarrow> bool" where
  "is_assistant msg = (role msg = ''assistant'')"

text \<open>Version 1 joins the parts of the first assistant message, with placeholders.\<close>

definition part_text :: "content_part \<Rightarrow> string" where
  "part_text c =
     (case c of
        Text v \<Rightarrow> v
      | ImageFile \<Rightarrow> ''[Image generated]''
      | OtherPart \<Rightarrow> ''[Content of unsupported type]'')"

definition extract_v1 :: "message list \<Rightarrow> string \<Rightarrow> string \<Rightarrow> analysis_result" where
  "extract_v1 msgs t r =
     (case find is_assistant msgs of
        None \<Rightarrow> NoResponse
      | Some msg \<Rightarrow> Reply (py_join nl (map part_text (parts msg))) t r)"

text \<open>
  Version 2 takes the first text part; \<^verbatim>\<open>content_value or "No text content found"\<close>
  replaces a missing and an empty text alike.
\<close>

fun first_text :: "content_part list \<Rightarrow> string option" where
  "first_text [] = None"
| "first_text (Text v # cs) = Some v"
| "first_text (c # cs) = first_text cs"

definition extract_v2 :: "message list \<Rightarrow> string \<Rightarrow> string \<Rightarrow> analysis_result" where
  "extract_v2 msgs t r =
     (case find is_assistant msgs of
        None \<Rightarrow> NoResponse
      | Some msg \<Rightarrow>
          Reply (case first_text (parts msg) of
                   None \<Rightarrow> ''No text content found''
                 | Some v \<Rightarrow> if v = [] then ''No text content found'' else v) t r)"

subsection \<open>\<^verbatim>\<open>run_analysis\<close>\<close>

text \<open>
  The two versions differ in the waiting loop and in how the answer is read; the rest
  is shared: initialize when \<^verbatim>\<open>assistant_id\<close> is not set, create a thread when none is
  given, post the query, start the run, wait, list the messages. \<open>None\<close>: the call does
  not return within the listed polls.
\<close>

definition run_analysis_with ::
  "(string \<Rightarrow> string \<Rightarrow> poll list \<Rightarrow> backend_call list
      \<Rightarrow> ((error + unit) \<times> backend_call list) option)
   \<Rightarrow> (message list \<Rightarrow> string \<Rightarrow> string \<Rightarrow> analysis_result)
   \<Rightarrow> backend \<Rightarrow> actor \<Rightarrow> string option \<Rightarrow> (analysis_result outcome) option" where
  "run_analysis_with wait extract b a thread_id =
     (case (if \<not> truthy (assistant_id a) then initialize b a else (Inr (), a, [])) of
        (Inl e, a1, log0) \<Rightarrow> Some (Inl e, a1, log0)
      | (Inr u, a1, log0) \<Rightarrow>
          (case (if \<not> truthy thread_id then (threads_create b, log0 @ [ThreadsCreate])
                 else (thread_id, log0)) of
             (None, log1) \<Rightarrow> Some (Inl BackendError, a1, log1)
           | (Some t, log1) \<Rightarrow>
               if \<not> messages_create b
               then Some (Inl BackendError, a1, log1 @ [MessagesCreate t])
               else
                 (case runs_create b of
                    None \<Rightarrow>
                      Some (Inl BackendError, a1,
                            log1 @ [MessagesCreate t, RunsCreate t (assistant_id a1)])
                  | Some r \<Rightarrow>
                      (case wait t r (runs_retrieve b)
                              (log1 @ [MessagesCreate t, RunsCreate t (assistant_id a1)]) of
                         None \<Rightarrow> None
                       | Some (Inl e, log2) \<Rightarrow> Some (Inl e, a1, log2)
                       | Some (Inr u, log2) \<Rightarrow>
                           (case messages_list b of
                              None \<Rightarrow> Some (Inl BackendError, a1, log2 @ [MessagesList t])
                            | Some msgs \<Rightarrow>
                                Some (Inr (extract msgs t r), a1, log2 @ [MessagesList t]))))))"

definition run_analysis_v1 ::
  "int \<Rightarrow> backend \<Rightarrow> actor \<Rightarrow> string option \<Rightarrow> (analysis_result outcome) option" where
  "run_analysis_v1 max_retries = run_analysis_with (wait_v1 max_retries 0) extract_v1"

definition run_analysis_v2 ::
  "backend \<Rightarrow> actor \<Rightarrow> string option \<Rightarrow> (analysis_result outcome) option" where
  "run_analysis_v2 = run_analysis_with wait_v2 extract_v2"

subsection \<open>\<^verbatim>\<open>cleanup\<close>\<close>

text \<open>
  The loop over the keys of \<^verbatim>\<open>file_mapping\<close>: each delete is tried, an exception is
  printed and the loop goes on. \<open>failed\<close> lists the ids whose error was printed.
\<close>

fun delete_files ::
  "backend \<Rightarrow> string list \<Rightarrow> backend_call list \<Rightarrow> string list
     \<Rightarrow> backend_call list \<times> string list" where
  "delete_files b [] log failed = (log, failed)"
| "delete_files b (file_id # rest) log failed =
     (if files_delete b file_id
      then delete_files b rest (log @ [FilesDelete file_id]) failed
      else delete_files b rest (log @ [FilesDelete file_id]) (failed @ [file_id]))"

definition cleanup :: "backend \<Rightarrow> actor \<Rightarrow> actor \<times> backend_call list \<times> string list" where
  "cleanup b a =
     (case delete_files b (map fst (file_mapping a)) [] [] of
        (log, failed) \<Rightarrow> (a\<lparr>file_mapping := []\<rparr>, log, failed))"

subsection \<open>Example actors and backends\<close>

definition data_actor :: actor where
  "data_actor = \<lparr>files = [''data/customers-10000.csv''], file_mapping = [], assistant_id = None\<rparr>"

definition initialized_actor :: actor where
  "initialized_actor =
     \<lparr>files = [''data/customers-10000.csv''],
      file_mapping =
        [(''file-1'', \<lparr>filename = ''customers-10000.csv'', path = ''data/customers-10000.csv''\<rparr>)],
      assistant_id = Some ''asst_1''\<rparr>"

text \<open>A backend that answers every call; its run is in progress twice, then completed.\<close>

definition second_backend :: backend where
  "second_backend =
     \<lparr>files_create = (\<lambda>k p. Some ''file-2''),
      assistants_create = Some ''asst_2'',
      threads_create = Some ''thread_2'',
      messages_create = True,
      runs_create = Some ''run_2'',
      runs_retrieve = [Status ''in_progress'', Status ''in_progress'', Status ''completed''],
      messages_list = Some [\<lparr>role = ''assistant'', parts = [Text ''42 customers'']\<rparr>,
                            \<lparr>role = ''user'', parts = [Text ''How many customers?'']\<rparr>],
      files_delete = (\<lambda>f. True)\<rparr>"

text \<open>The same backend with a run that has failed and stays failed.\<close>

definition failed_backend :: backend where
  "failed_backend =
     second_backend\<lparr>runs_retrieve := [Status ''failed'', Status ''failed'', Status ''failed'']\<rparr>"

text \<open>A backend that refuses to delete \<^verbatim>\<open>file-1\<close>.\<close>

definition stubborn_backend :: backend where
  "stubborn_backend = second_backend\<lparr>files_delete := (\<lambda>f. f \<noteq> ''file-1'')\<rparr>"


text \<open>The calls that only \<^verbatim>\<open>initialize\<close> makes: uploads and the creation of the assistant.\<close>

fun is_initialization :: "backend_call \<Rightarrow> bool" where
  "is_initialization (FilesCreate p) = True"
| "is_initialization (AssistantsCreate ids) = True"
| "is_initialization c = False"

text \<open>A poll after which both waiting loops poll again: a status that is neither
  \<^verbatim>\<open>completed\<close> nor one of the failure statuses.\<close>

definition still_running :: "poll \<Rightarrow> bool" where
  "still_running p =
     (case p of
        RetrieveRaises \<Rightarrow> False
      | Status s \<Rightarrow> s \<noteq> ''completed'' \<and> s \<notin> set failure_statuses)"

section \<open>The query planner\<close>

text \<open>
  \<^verbatim>\<open>tests/planner.py\<close>, class \<^verbatim>\<open>QueryPlanner\<close>.

  Modelled from the spec: the module \<^verbatim>\<open>metadata_models\<close> that declares \<^verbatim>\<open>DataType\<close>,
  \<^verbatim>\<open>AnalysisType\<close>, \<^verbatim>\<open>ActorCapabilities\<close> and \<^verbatim>\<open>ExecutionStep\<close> is not among the sources.
  The two enumerations are closed sets of named members (a member is given by its
  \<^verbatim>\<open>name\<close>); the capabilities hold the supported data types and analyses; a step has the
  five fields the planner fills, \<^verbatim>\<open>depends_on\<close> being empty when the planner passes none.
\<close>

datatype DataType = DataType (data_name: string)
datatype AnalysisType = AnalysisType (analysis_name: string)

record ActorCapabilities =
  supported_data_types :: "DataType list"
  supported_analyses :: "AnalysisType list"

record ExecutionStep =
  actor_name :: string
  action :: string
  required_data :: "DataType list"
  expected_output :: string
  depends_on :: "string list"

text \<open>
  \<^verbatim>\<open>self.actor_capabilities\<close>: a \<^verbatim>\<open>dict\<close> from actor name to capabilities, in the order
  of first registration.
\<close>

type_synonym capabilities = "(string \<times> ActorCapabilities) list"

definition register_actor :: "capabilities \<Rightarrow> string \<Rightarrow> ActorCapabilities \<Rightarrow> capabilities" where
  "register_actor actor_capabilities name caps = AList.update name caps actor_capabilities"

text \<open>
  The two lookups walk \<^verbatim>\<open>actor_capabilities.items()\<close> and return at the first actor that
  supports the type; falling out of the loop raises \<^verbatim>\<open>ValueError\<close>.
\<close>

fun find_best_actor_for_data :: "capabilities \<Rightarrow> DataType \<Rightarrow> error + string" where
  "find_best_actor_for_data [] data_type =
     Inl (ValueError (''No actor found for data type: '' @ data_name data_type))"
| "find_best_actor_for_data ((name, caps) # rest) data_type =
     (if data_type \<in> set (supported_data_types caps) then Inr name
      else find_best_actor_for_data rest data_type)"

fun find_best_actor_for_analysis :: "capabilities \<Rightarrow> AnalysisType \<Rightarrow> error + string" where
  "find_best_actor_for_analysis [] analysis_type =
     Inl (ValueError (''No actor found for analysis: '' @ analysis_name analysis_type))"
| "find_best_actor_for_analysis ((name, caps) # rest) analysis_type =
     (if analysis_type \<in> set (supported_analyses caps) then Inr name
      else find_best_actor_for_analysis rest analysis_type)"

text \<open>The two \<^verbatim>\<open>ExecutionStep(...)\<close> calls of \<^verbatim>\<open>_create_execution_steps\<close>.\<close>

definition retrieve_step :: "string \<Rightarrow> DataType \<Rightarrow> ExecutionStep" where
  "retrieve_step actor data_type =
     \<lparr>actor_name = actor,
      action = ''retrieve_'' @ lower (data_name data_type) @ ''_data'',
      required_data = [data_type],
      expected_output = data_name data_type @ '' data summary'',
      depends_on = []\<rparr>"

definition perform_step ::
  "string \<Rightarrow> AnalysisType \<Rightarrow> DataType list \<Rightarrow> string list \<Rightarrow> ExecutionStep" where
  "perform_step actor analysis handled_data dependencies =
     \<lparr>actor_name = actor,
      action = ''perform_'' @ lower (analysis_name analysis) @ ''_analysis'',
      required_data = handled_data,
      expected_output = analysis_name analysis @ '' analysis results'',
      depends_on = dependencies\<rparr>"

text \<open>
  The filter of the dependency comprehension:
  \<^verbatim>\<open>any(dt in s.required_data for dt in handled_data)\<close>.
\<close>

definition touches :: "DataType list \<Rightarrow> ExecutionStep \<Rightarrow> bool" where
  "touches handled_data s = list_ex (\<lambda>dt. dt \<in> set (required_data s)) handled_data"

text \<open>
  The first loop of \<^verbatim>\<open>_create_execution_steps\<close>. \<^verbatim>\<open>handled_data\<close> is a Python \<^verbatim>\<open>set\<close>,
  kept here as a list without repetitions; Python fixes no order for \<^verbatim>\<open>list(handled_data)\<close>
  and nothing below depends on the order chosen.
\<close>

fun data_steps ::
  "capabilities \<Rightarrow> DataType list \<Rightarrow> ExecutionStep list \<Rightarrow> DataType list
     \<Rightarrow> error + (ExecutionStep list \<times> DataType list)" where
  "data_steps caps [] steps handled_data = Inr (steps, handled_data)"
| "data_steps caps (data_type # rest) steps handled_data =
     (case find_best_actor_for_data caps data_type of
        Inl e \<Rightarrow> Inl e
      | Inr actor \<Rightarrow>
          data_steps caps rest
            (steps @ [retrieve_step actor data_type])
            (List.insert data_type handled_data))"

text \<open>
  The second loop. The comprehension runs over \<^verbatim>\<open>steps\<close> as it is when the analysis is
  reached: the data steps and the analysis steps appended before.
\<close>

fun analysis_steps ::
  "capabilities \<Rightarrow> AnalysisType list \<Rightarrow> ExecutionStep list \<Rightarrow> DataType list
     \<Rightarrow> error + ExecutionStep list" where
  "analysis_steps caps [] steps handled_data = Inr steps"
| "analysis_steps caps (analysis # rest) steps handled_data =
     (case find_best_actor_for_analysis caps analysis of
        Inl e \<Rightarrow> Inl e
      | Inr actor \<Rightarrow>
          analysis_steps caps rest
            (steps @ [perform_step actor analysis handled_data
                        (map actor_name (filter (touches handled_data) steps))])
            handled_data)"

definition create_execution_steps ::
  "capabilities \<Rightarrow> DataType list \<Rightarrow> AnalysisType list \<Rightarrow> error + ExecutionStep list" where
  "create_execution_steps caps required_data_types required_analyses =
     (case data_steps caps required_data_types [] [] of
        Inl e \<Rightarrow> Inl e
      | Inr (steps, handled_data) \<Rightarrow> analysis_steps caps required_analyses steps handled_data)"

text \<open>
  The specification's wording: the first registered actor, in registration order, whose
  capabilities support what is required.
\<close>

definition first_actor :: "(ActorCapabilities \<Rightarrow> bool) \<Rightarrow> capabilities \<Rightarrow> string option" where
  "first_actor supports caps = map_option fst (find (\<lambda>entry. supports (snd entry)) caps)"

text \<open>
  The scenario of the specification: \<^verbatim>\<open>customer\<close> supports the data type CUSTOMER,
  \<^verbatim>\<open>organization\<close> the data type ORGANIZATION and the analyses registered for it.
\<close>

definition example_capabilities :: capabilities where
  "example_capabilities =
     register_actor
       (register_actor [] ''customer''
          \<lparr>supported_data_types = [DataType ''CUSTOMER''], supported_analyses = []\<rparr>)
       ''organization''
       \<lparr>supported_data_types = [DataType ''ORGANIZATION''],
        supported_analyses = [AnalysisType ''GEOGRAPHIC'', AnalysisType ''STATISTICAL'']\<rparr>"

definition two_analyses_plan :: "ExecutionStep list" where
  "two_analyses_plan =
     [retrieve_step ''customer'' (DataType ''CUSTOMER''),
      perform_step ''organization'' (AnalysisType ''GEOGRAPHIC'') [DataType ''CUSTOMER'']
        [''customer''],
      perform_step ''organization'' (AnalysisType ''STATISTICAL'') [DataType ''CUSTOMER'']
        [''customer'', ''organization'']]"

definition scenario_plan :: "ExecutionStep list" where
  "scenario_plan =
     [\<lparr>actor_name = ''customer'', action = ''retrieve_customer_data'',
       required_data = [DataType ''CUSTOMER''],
       expected_output = ''CUSTOMER data summary'', depends_on = []\<rparr>,
      \<lparr>actor_name = ''organization'', action = ''retrieve_organization_data'',
       required_data = [DataType ''ORGANIZATION''],
       expected_output = ''ORGANIZATION data summary'', depends_on = []\<rparr>,
      \<lparr>actor_name = ''organization'', action = ''perform_geographic_analysis'',
       required_data = [DataType ''ORGANIZATION'', DataType ''CUSTOMER''],
       expected_output = ''GEOGRAPHIC analysis results'',
       depends_on = [''customer'', ''organization'']\<rparr>]"

section \<open>The planner's reading of the model's answer\<close>

text \<open>
  \<^verbatim>\<open>str.strip()\<close>: the ASCII characters Python counts as whitespace are removed from
  both ends.
\<close>

definition is_space :: "char \<Rightarrow> bool" where
  "is_space c = (c \<in> set [CHR 0x09, CHR 0x0A, CHR 0x0B, CHR 0x0C, CHR 0x0D,
                           CHR 0x1C, CHR 0x1D, CHR 0x1E, CHR 0x1F, CHR 0x20])"

definition strip :: "string \<Rightarrow> string" where
  "strip s = rev (dropWhile is_space (rev (dropWhile is_space s)))"

definition fence :: string where
  "fence = [CHR 0x60, CHR 0x60, CHR 0x60]"

text \<open>\<open>split_at sep s\<close>: the text before and after the first occurrence of \<open>sep\<close> in \<open>s\<close>.\<close>

fun split_at :: "string \<Rightarrow> string \<Rightarrow> (string \<times> string) option" where
  "split_at sep [] = (if sep = [] then Some ([], []) else None)"
| "split_at sep (c # cs) =
     (if prefix sep (c # cs) then Some ([], drop (length sep) (c # cs))
      else map_option (\<lambda>(before, after). (c # before, after)) (split_at sep cs))"

text \<open>
  Group 1 of \<^verbatim>\<open>re.search(r'```(?:json)?(.*?)```', response, re.DOTALL)\<close>. A match starts
  at the first fence: \<^verbatim>\<open>(?:json)?\<close> takes the four letters when they follow it, the lazy
  \<^verbatim>\<open>(.*?)\<close> (any character, newlines too) ends at the next fence. The letters hold no
  backquote, so giving them back opens no other match, and when no fence follows the
  first one, none follows a later start either.
\<close>

definition search_fenced :: "string \<Rightarrow> string option" where
  "search_fenced response =
     (case split_at fence response of
        None \<Rightarrow> None
      | Some (before, after) \<Rightarrow>
          (case split_at fence (if prefix ''json'' after then drop 4 after else after) of
             None \<Rightarrow> None
           | Some (inner, rest) \<Rightarrow> Some inner))"

text \<open>\<^verbatim>\<open>_clean_json_response\<close>.\<close>

definition clean_json_response :: "string \<Rightarrow> string" where
  "clean_json_response response =
     strip (if py_in fence response
            then (case search_fenced response of Some inner \<Rightarrow> inner | None \<Rightarrow> response)
            else response)"

text \<open>
  What \<^verbatim>\<open>json.loads\<close> returns. An object is a \<^verbatim>\<open>dict\<close>: its items with distinct keys.
\<close>

datatype json =
    JNull
  | JBool bool
  | JNumber string
  | JString string
  | JArray "json list"
  | JObject "(string \<times> json) list"

text \<open>
  Iterating a value, as \<^verbatim>\<open>all(... for dt in value)\<close> does: the elements of a list, the
  characters of a string, the keys of a dict; any other value raises \<^verbatim>\<open>TypeError\<close>.
\<close>

definition json_iter :: "json \<Rightarrow> json list option" where
  "json_iter v =
     (case v of
        JArray xs \<Rightarrow> Some xs
      | JString s \<Rightarrow> Some (map (\<lambda>c. JString [c]) s)
      | JObject items \<Rightarrow> Some (map (\<lambda>item. JString (fst item)) items)
      | _ \<Rightarrow> None)"

fun json_str :: "json \<Rightarrow> string" where
  "json_str (JString s) = s"
| "json_str v = []"

text \<open>
  \<^verbatim>\<open>_analyze_query_requirements\<close> from the model's answer on: clean, parse, validate.
  \<^verbatim>\<open>json.loads\<close> is library code and a parameter here (\<open>None\<close> for
  \<^verbatim>\<open>JSONDecodeError\<close>), as are the member names of the two enumerations. Every failure
  leaves as \<^verbatim>\<open>ValueError\<close>; the text Python appends for the cause is shortened.
\<close>

definition analyze_query_requirements ::
  "(string \<Rightarrow> json option) \<Rightarrow> string list \<Rightarrow> string list \<Rightarrow> string
     \<Rightarrow> error + (DataType list \<times> AnalysisType list)" where
  "analyze_query_requirements loads data_types analysis_types response =
     (case loads (clean_json_response response) of
        None \<Rightarrow> Inl (ValueError ''Failed to parse LLM response'')
      | Some result \<Rightarrow>
          (case result of
             JObject items \<Rightarrow>
               (case (map_of items ''required_data_types'', map_of items ''required_analyses'') of
                  (Some dts, Some ats) \<Rightarrow>
                    (case json_iter dts of
                       None \<Rightarrow> Inl (ValueError ''Invalid response format'')
                     | Some ds \<Rightarrow>
                         if \<not> list_all (\<lambda>dt. dt \<in> set (map JString data_types)) ds
                         then Inl (ValueError ''Invalid response format: Invalid data types in response'')
                         else
                           (case json_iter ats of
                              None \<Rightarrow> Inl (ValueError ''Invalid response format'')
                            | Some as \<Rightarrow>
                                if \<not> list_all (\<lambda>at. at \<in> set (map JString analysis_types)) as
                                then Inl (ValueError
                                       ''Invalid response format: Invalid analysis types in response'')
                                else Inr (map (\<lambda>dt. DataType (json_str dt)) ds,
                                          map (\<lambda>at. AnalysisType (json_str at)) as)))
                | _ \<Rightarrow> Inl (ValueError ''Invalid response format: Response missing required keys''))
           | _ \<Rightarrow> Inl (ValueError ''Invalid response format: Response is not a dictionary'')))"

text \<open>
  A parser for a fragment of JSON, used to run the analysis on example answers: objects,
  arrays, strings without escape sequences, \<^verbatim>\<open>true\<close>, \<^verbatim>\<open>false\<close>, \<^verbatim>\<open>null\<close>. Texts outside
  the fragment (numbers, escapes) are rejected here though Python parses them. The
  first argument of the parsing functions bounds the nesting and the length of lists.
\<close>

definition py_dict :: "(string \<times> json) list \<Rightarrow> (string \<times> json) list" where
  "py_dict pairs = foldl (\<lambda>d (k, v). AList.update k v d) [] pairs"

definition json_ws :: "char \<Rightarrow> bool" where
  "json_ws c = (c \<in> set [CHR 0x20, CHR 0x09, CHR 0x0A, CHR 0x0D])"

fun parse_chars :: "string \<Rightarrow> (string \<times> string) option" where
  "parse_chars [] = None"
| "parse_chars (c # cs) =
     (if c = CHR 0x22 then Some ([], cs)
      else if c = CHR 0x5C then None
      else map_option (\<lambda>(s, rest). (c # s, rest)) (parse_chars cs))"

fun parse_value :: "nat \<Rightarrow> string \<Rightarrow> (json \<times> string) option"
  and parse_items :: "nat \<Rightarrow> string \<Rightarrow> (json list \<times> string) option"
  and parse_members :: "nat \<Rightarrow> string \<Rightarrow> ((string \<times> json) list \<times> string) option" where
  "parse_value 0 s = None"
| "parse_value (Suc n) s =
     (case dropWhile json_ws s of
        [] \<Rightarrow> None
      | c # cs \<Rightarrow>
          if c = CHR 0x22 then map_option (\<lambda>(t, rest). (JString t, rest)) (parse_chars cs)
          else if c = CHR ''['' then
            (if prefix '']'' (dropWhile json_ws cs)
             then Some (JArray [], drop 1 (dropWhile json_ws cs))
             else map_option (\<lambda>(xs, rest). (JArray xs, rest)) (parse_items n cs))
          else if c = CHR ''{'' then
            (if prefix ''}'' (dropWhile json_ws cs)
             then Some (JObject [], drop 1 (dropWhile json_ws cs))
             else map_option (\<lambda>(ms, rest). (JObject (py_dict ms), rest)) (parse_members n cs))
          else if prefix ''true'' (c # cs) then Some (JBool True, drop 4 (c # cs))
          else if prefix ''false'' (c # cs) then Some (JBool False, drop 5 (c # cs))
          else if prefix ''null'' (c # cs) then Some (JNull, drop 4 (c # cs))
          else None)"
| "parse_items 0 s = None"
| "parse_items (Suc n) s =
     (case parse_value n s of
        None \<Rightarrow> None
      | Some (v, rest) \<Rightarrow>
          (case dropWhile json_ws rest of
             [] \<Rightarrow> None
           | c # cs \<Rightarrow>
               if c = CHR '','' then map_option (\<lambda>(vs, r). (v # vs, r)) (parse_items n cs)
               else if c = CHR '']'' then Some ([v], cs)
               else None))"
| "parse_members 0 s = None"
| "parse_members (Suc n) s =
     (case dropWhile json_ws s of
        [] \<Rightarrow> None
      | q # cs \<Rightarrow>
          if q \<noteq> CHR 0x22 then None
          else
            (case parse_chars cs of
               None \<Rightarrow> None
             | Some (key, rest) \<Rightarrow>
                 (case dropWhile json_ws rest of
                    [] \<Rightarrow> None
                  | colon # rest1 \<Rightarrow>
                      if colon \<noteq> CHR '':'' then None
                      else
                        (case parse_value n rest1 of
                           None \<Rightarrow> None
                         | Some (v, rest2) \<Rightarrow>
                             (case dropWhile json_ws rest2 of
                                [] \<Rightarrow> None
                              | c # rest3 \<Rightarrow>
                                  if c = CHR '','' then
                                    map_option (\<lambda>(ms, r). ((key, v) # ms, r))
                                      (parse_members n rest3)
                                  else if c = CHR ''}'' then Some ([(key, v)], rest3)
                                  else None)))))"

definition json_fragment_loads :: "string \<Rightarrow> json option" where
  "json_fragment_loads s =
     (case parse_value (Suc (length s)) s of
        None \<Rightarrow> None
      | Some (v, rest) \<Rightarrow> if dropWhile json_ws rest = [] then Some v else None)"

text \<open>Two answers of the model: the plain payload, and one with a note that holds a fence.\<close>

definition plain_payload :: string where
  \<open>plain_payload = ''{"required_data_types": ["CUSTOMER"], "required_analyses": ["GEOGRAPHIC"]}''\<close>

definition noted_payload :: string where
  \<open>noted_payload = ''{"required_data_types": ["CUSTOMER"], "required_analyses": ["GEOGRAPHIC"], "note": "fenced with ```"}''\<close>

section \<open>The orchestrator\<close>

text \<open>
  \<^verbatim>\<open>enhanced_orchestrator.py\<close> in its two versions. Version 1 plans with a chat completion
  and joins the results itself; version 2 plans and synthesizes with a planning actor and
  keeps a history of tasks. The prompts are text for the backend and are not modelled.
\<close>

datatype version = V1 | V2

text \<open>\<^verbatim>\<open>OrchestratorContext\<close>: three containers, empty at construction.\<close>

record orchestrator_context =
  threads :: "(string \<times> string) list"
  actor_results :: "(string \<times> analysis_result list) list"
  history :: "string list"

definition new_context :: orchestrator_context where
  "new_context = \<lparr>threads = [], actor_results = [], history = []\<rparr>"

text \<open>\<^verbatim>\<open>add_result\<close>: append to the actor's list, creating it on first use.\<close>

definition add_result :: "orchestrator_context \<Rightarrow> string \<Rightarrow> analysis_result \<Rightarrow> orchestrator_context" where
  "add_result c actor result =
     c\<lparr>actor_results :=
         (case map_of (actor_results c) actor of
            None \<Rightarrow> AList.update actor [result] (actor_results c)
          | Some rs \<Rightarrow> AList.update actor (rs @ [result]) (actor_results c))\<rparr>"

text \<open>
  \<^verbatim>\<open>EnhancedOrchestrator\<close>: the registered actors by name (their metadata is prompt text),
  the planning actor of version 2, and the context.
\<close>

record orchestrator =
  actors :: "(string \<times> actor) list"
  planner :: actor
  ctx :: orchestrator_context

text \<open>\<^verbatim>\<open>result.get("thread_id")\<close> and \<^verbatim>\<open>result["content"]\<close> on the two shapes of a result.\<close>

definition get_thread_id :: "analysis_result \<Rightarrow> string option" where
  "get_thread_id result = (case result of Reply c t r \<Rightarrow> Some t | NoResponse \<Rightarrow> None)"

definition get_content :: "analysis_result \<Rightarrow> error + string" where
  "get_content result =
     (case result of Reply c t r \<Rightarrow> Inr c | NoResponse \<Rightarrow> Inl (KeyError ''content''))"

text \<open>
  \<^verbatim>\<open>agent.run_analysis(prompt, thread_id=thread_id)\<close>: the actor of the orchestrator's own
  version, version 1 with its default \<^verbatim>\<open>max_retries=3\<close>.
\<close>

definition agent_run_analysis ::
  "version \<Rightarrow> backend \<Rightarrow> actor \<Rightarrow> string option \<Rightarrow> (analysis_result outcome) option" where
  "agent_run_analysis ver = (case ver of V1 \<Rightarrow> run_analysis_v1 3 | V2 \<Rightarrow> run_analysis_v2)"

type_synonym 'a orch_outcome = "((error + 'a) \<times> orchestrator \<times> backend_call list) option"

text \<open>
  \<^verbatim>\<open>_execute_actor\<close>. An unregistered name raises \<^verbatim>\<open>KeyError\<close>; an exception of the actor
  leaves the context as it was. The thread id is stored under the guard
  \<^verbatim>\<open>if not thread_id and result.get("thread_id")\<close>; version 2 also appends to the history.
\<close>

definition execute_actor ::
  "version \<Rightarrow> backend \<Rightarrow> orchestrator \<Rightarrow> string \<Rightarrow> string \<Rightarrow> analysis_result orch_outcome" where
  "execute_actor ver b orch actor task =
     (case map_of (actors orch) actor of
        None \<Rightarrow> Some (Inl (KeyError actor), orch, [])
      | Some agent \<Rightarrow>
          (case agent_run_analysis ver b agent (map_of (threads (ctx orch)) actor) of
             None \<Rightarrow> None
           | Some (Inl e, agent', calls) \<Rightarrow>
               Some (Inl e, orch\<lparr>actors := AList.update actor agent' (actors orch)\<rparr>, calls)
           | Some (Inr result, agent', calls) \<Rightarrow>
               let thread_id = map_of (threads (ctx orch)) actor;
                   c1 = (if \<not> truthy thread_id \<and> truthy (get_thread_id result)
                         then (ctx orch)\<lparr>threads :=
                                AList.update actor (reply_thread result) (threads (ctx orch))\<rparr>
                         else ctx orch);
                   c2 = add_result c1 actor result;
                   c3 = (case ver of
                           V1 \<Rightarrow> c2
                         | V2 \<Rightarrow> c2\<lparr>history := history c2 @ [actor @ '': '' @ task]\<rparr>)
               in Some (Inr result,
                        orch\<lparr>actors := AList.update actor agent' (actors orch), ctx := c3\<rparr>,
                        calls)))"

text \<open>
  A sequence of executions on one orchestrator, the context kept between them (an
  exception ends a \<^verbatim>\<open>run_analysis\<close>, not the orchestrator). Each execution has its own
  backend replies; the trace keeps, per execution, the actor, the thread id passed to
  \<^verbatim>\<open>run_analysis\<close>, the outcome and the backend calls.
\<close>

record execution =
  exec_actor :: string
  exec_thread :: "string option"
  exec_outcome :: "error + analysis_result"
  exec_calls :: "backend_call list"

fun execute_sequence ::
  "version \<Rightarrow> orchestrator \<Rightarrow> (backend \<times> string \<times> string) list
     \<Rightarrow> (orchestrator \<times> execution list) option" where
  "execute_sequence ver orch [] = Some (orch, [])"
| "execute_sequence ver orch ((b, actor, task) # rest) =
     (case execute_actor ver b orch actor task of
        None \<Rightarrow> None
      | Some (outcome, orch', calls) \<Rightarrow>
          map_option
            (\<lambda>(final, trace).
               (final, \<lparr>exec_actor = actor, exec_thread = map_of (threads (ctx orch)) actor,
                        exec_outcome = outcome, exec_calls = calls\<rparr> # trace))
            (execute_sequence ver orch' rest))"

text \<open>A backend whose completed run left no assistant message.\<close>

definition silent_backend :: backend where
  "silent_backend =
     \<lparr>files_create = (\<lambda>k p. Some ''file-1''),
      assistants_create = Some ''asst_1'',
      threads_create = Some ''thread_1'',
      messages_create = True,
      runs_create = Some ''run_1'',
      runs_retrieve = [Status ''completed''],
      messages_list = Some [\<lparr>role = ''user'', parts = [Text ''How many customers?'']\<rparr>],
      files_delete = (\<lambda>f. True)\<rparr>"

definition fresh_orchestrator :: orchestrator where
  "fresh_orchestrator =
     \<lparr>actors = [(''customer'', data_actor)], planner = data_actor\<lparr>files := []\<rparr>, ctx = new_context\<rparr>"

text \<open>
  A backend call that creates no thread and, when it names a thread, names \<open>t\<close>.
\<close>

fun uses_thread :: "string \<Rightarrow> backend_call \<Rightarrow> bool" where
  "uses_thread t ThreadsCreate = False"
| "uses_thread t (MessagesCreate t') = (t' = t)"
| "uses_thread t (RunsCreate t' a) = (t' = t)"
| "uses_thread t (RunsRetrieve t' r) = (t' = t)"
| "uses_thread t (MessagesList t') = (t' = t)"
| "uses_thread t c = True"

text \<open>The thread id an execution's outcome carries, if any (a non-empty one).\<close>

definition recorded :: "error + analysis_result \<Rightarrow> string option" where
  "recorded outcome =
     (case outcome of
        Inl e \<Rightarrow> None
      | Inr NoResponse \<Rightarrow> None
      | Inr (Reply c t r) \<Rightarrow> if t = [] then None else Some t)"

text \<open>
  The thread id carried by the first execution for actor \<open>a\<close> in a trace that carries one.
\<close>

fun first_thread :: "string \<Rightarrow> execution list \<Rightarrow> string option" where
  "first_thread a [] = None"
| "first_thread a (e # es) =
     (if exec_actor e = a \<and> recorded (exec_outcome e) \<noteq> None
      then recorded (exec_outcome e)
      else first_thread a es)"

text \<open>\<^verbatim>\<open>self.context.threads.get(a)\<close>.\<close>

definition stored :: "orchestrator \<Rightarrow> string \<Rightarrow> string option" where
  "stored orch a = map_of (threads (ctx orch)) a"

definition threads_set :: "orchestrator \<Rightarrow> bool" where
  "threads_set orch = (\<forall>a t. stored orch a = Some t \<longrightarrow> t \<noteq> [])"

definition or_else :: "'a option \<Rightarrow> 'a option \<Rightarrow> 'a option" where
  "or_else x y = (case x of None \<Rightarrow> y | Some v \<Rightarrow> Some v)"

definition silent_then_answer :: "(backend \<times> string \<times> string) list" where
  "silent_then_answer =
     [(silent_backend, ''customer'', ''count customers''),
      (second_backend, ''customer'', ''count customers'')]"

definition answer_then_silent :: "(backend \<times> string \<times> string) list" where
  "answer_then_silent =
     [(second_backend, ''customer'', ''count customers''),
      (silent_backend, ''customer'', ''count customers'')]"

definition reuse_trace :: "execution list" where
  "reuse_trace =
     [\<lparr>exec_actor = ''customer'', exec_thread = None,
       exec_outcome = Inr (Reply ''42 customers'' ''thread_2'' ''run_2''),
       exec_calls =
         [FilesCreate ''data/customers-10000.csv'', AssistantsCreate [''file-2''],
          ThreadsCreate, MessagesCreate ''thread_2'', RunsCreate ''thread_2'' (Some ''asst_2''),
          RunsRetrieve ''thread_2'' ''run_2'', RunsRetrieve ''thread_2'' ''run_2'',
          RunsRetrieve ''thread_2'' ''run_2'', MessagesList ''thread_2'']\<rparr>,
      \<lparr>exec_actor = ''customer'', exec_thread = Some ''thread_2'',
       exec_outcome = Inr NoResponse,
       exec_calls =
         [MessagesCreate ''thread_2'', RunsCreate ''thread_2'' (Some ''asst_2''),
          RunsRetrieve ''thread_2'' ''run_1'', MessagesList ''thread_2'']\<rparr>]"

definition reuse_final :: orchestrator where
  "reuse_final =
     \<lparr>actors =
        [(''customer'',
          \<lparr>files = [''data/customers-10000.csv''],
           file_mapping =
             [(''file-2'', \<lparr>filename = ''customers-10000.csv'',
                            path = ''data/customers-10000.csv''\<rparr>)],
           assistant_id = Some ''asst_2''\<rparr>)],
      planner = \<lparr>files = [], file_mapping = [], assistant_id = None\<rparr>,
      ctx =
        \<lparr>threads = [(''customer'', ''thread_2'')],
         actor_results =
           [(''customer'', [Reply ''42 customers'' ''thread_2'' ''run_2'', NoResponse])],
         history = [''customer: count customers'', ''customer: count customers'']\<rparr>\<rparr>"

section \<open>Theorems\<close>

subsection \<open>Strings\<close>

lemma py_in_sublist: "py_in sub s = sublist sub s"
  by (induction s) (auto simp: sublist_Cons_right)

subsection \<open>The supervisor\<close>

lemma completion_check:
  "list_ex (\<lambda>phrase. py_in phrase m) completion_phrases = mentions_completion m"
  by (simp add: completion_phrases_def mentions_completion_def)

lemma route_organization_rules:
  "\<not> mentions_completion m \<Longrightarrow> route_organization m prev = supervisor_rules m prev"
  by (simp add: route_organization_def route_customer_def alternate_def
      supervisor_rules_def mentions_completion_def)

lemma route_organization_not_finish: "route_organization m prev \<noteq> ''FINISH''"
  by (simp add: route_organization_def route_customer_def alternate_def)

text \<open>
  C8. Every supervisor decision (a transcript with a latest message) is the result of the
  four rules applied in order to the lowercased latest message and the name of the actor
  that produced it, and the decision is FINISH exactly when the message contains one of
  the four completion phrases.
\<close>

theorem supervisor_follows_rules:
  assumes "messages \<noteq> []"
  shows "get_next_actor messages =
           Inr (supervisor_rules (lower (msg_content (last messages)))
                                 (msg_name (last messages)))
         \<and> (get_next_actor messages = Inr ''FINISH''
              \<longleftrightarrow> mentions_completion (lower (msg_content (last messages))))"
proof (cases "mentions_completion (lower (msg_content (last messages)))")
  case True
  with assms show ?thesis
    by (simp add: get_next_actor_def completion_check supervisor_rules_def
        mentions_completion_def)
next
  case False
  with assms have decided: "get_next_actor messages =
      Inr (route_organization (lower (msg_content (last messages))) (msg_name (last messages)))"
    by (simp add: get_next_actor_def completion_check)
  from False have "route_organization (lower (msg_content (last messages))) (msg_name (last messages))
      = supervisor_rules (lower (msg_content (last messages))) (msg_name (last messages))"
    by (rule route_organization_rules)
  moreover have "get_next_actor messages \<noteq> Inr ''FINISH''"
    unfolding decided using route_organization_not_finish by simp
  ultimately show ?thesis
    using decided False by simp
qed

theorem supervisor_follows_rules_witness:
  "[\<lparr>msg_content = ''The Company data is ready'', msg_name = Some ''customer_specialist''\<rparr>] \<noteq> []
   \<and> get_next_actor
        [\<lparr>msg_content = ''The Company data is ready'', msg_name = Some ''customer_specialist''\<rparr>]
      = Inr ''organization_specialist''"
  using supervisor_follows_rules
    [of "[\<lparr>msg_content = ''The Company data is ready'', msg_name = Some ''customer_specialist''\<rparr>]"]
  by (simp add: supervisor_rules_def lower_def lower_char_def)

subsection \<open>Cleanup\<close>

lemma delete_files_log:
  "fst (delete_files b ids log failed) = log @ map FilesDelete ids"
  by (induction ids arbitrary: log failed) auto

lemma delete_files_failed:
  "snd (delete_files b ids log failed) = failed @ filter (\<lambda>f. \<not> files_delete b f) ids"
  by (induction ids arbitrary: log failed) auto

text \<open>
  C3. Whatever the backend answers to the deletes, \<^verbatim>\<open>cleanup\<close> attempts one delete per
  key of the file mapping, in the mapping's order (so exactly as many as the mapping has
  entries), the ids whose delete failed are exactly those the backend refused (a failure
  stops nothing), and the file mapping is empty afterwards.
\<close>

theorem cleanup_deletes_every_file:
  "fst (snd (cleanup b a)) = map FilesDelete (map fst (file_mapping a))
   \<and> length (fst (snd (cleanup b a))) = length (file_mapping a)
   \<and> snd (snd (cleanup b a)) = filter (\<lambda>f. \<not> files_delete b f) (map fst (file_mapping a))
   \<and> file_mapping (fst (cleanup b a)) = []"
proof -
  obtain log failed where d: "delete_files b (map fst (file_mapping a)) [] [] = (log, failed)"
    by (cases "delete_files b (map fst (file_mapping a)) [] []")
  from d have "log = map FilesDelete (map fst (file_mapping a))"
    using delete_files_log [of b "map fst (file_mapping a)" "[]" "[]"] by simp
  moreover from d have "failed = filter (\<lambda>f. \<not> files_delete b f) (map fst (file_mapping a))"
    using delete_files_failed [of b "map fst (file_mapping a)" "[]" "[]"] by simp
  ultimately show ?thesis
    by (simp add: cleanup_def d)
qed

lemma cleanup_with_failing_delete:
  "cleanup stubborn_backend initialized_actor =
     (initialized_actor\<lparr>file_mapping := []\<rparr>, [FilesDelete ''file-1''], [''file-1''])"
  by (simp add: cleanup_def stubborn_backend_def initialized_actor_def second_backend_def)

subsection \<open>Initialization\<close>

lemma wait_v2_log:
  "wait_v2 t r polls log = Some (res, log') \<Longrightarrow>
     filter is_initialization log' = filter is_initialization log"
  by (induction t r polls log rule: wait_v2.induct) (auto split: if_splits)

lemma wait_v1_log:
  "wait_v1 m n t r polls log = Some (res, log') \<Longrightarrow>
     filter is_initialization log' = filter is_initialization log"
  by (induction m n t r polls log rule: wait_v1.induct)
     (auto split: if_splits try_result.splits)

lemma run_analysis_with_initialized:
  assumes w: "\<And>t r polls log res log'. wait t r polls log = Some (res, log') \<Longrightarrow>
     filter is_initialization log' = filter is_initialization log"
    and "truthy (assistant_id a)"
    and "run_analysis_with wait extract b a thread = Some (res, a', log)"
  shows "a' = a \<and> filter is_initialization log = []"
  using assms(2,3)
  by (auto simp: run_analysis_with_def
      split: if_splits option.splits prod.splits sum.splits dest!: w)

text \<open>
  C7 as stated fails: \<^verbatim>\<open>initialize\<close> has no guard. Called on an actor whose assistant id is
  set, it uploads the configured file again (a second entry in the file mapping), creates
  another assistant and replaces the assistant id.
\<close>

theorem initialize_again_counterexample:
  "truthy (assistant_id initialized_actor) \<and>
   initialize second_backend initialized_actor =
     (Inr (),
      \<lparr>files = [''data/customers-10000.csv''],
       file_mapping =
         [(''file-1'', \<lparr>filename = ''customers-10000.csv'', path = ''data/customers-10000.csv''\<rparr>),
          (''file-2'', \<lparr>filename = ''customers-10000.csv'', path = ''data/customers-10000.csv''\<rparr>)],
       assistant_id = Some ''asst_2''\<rparr>,
      [FilesCreate ''data/customers-10000.csv'', AssistantsCreate [''file-2'']])"
  by (simp add: truthy_def initialized_actor_def initialize_def upload_file_def
      second_backend_def basename_def)

text \<open>
  C7, amended. The guard stands in \<^verbatim>\<open>run_analysis\<close>: for an actor whose assistant id is
  set, a call of \<^verbatim>\<open>run_analysis\<close> (either version) that returns or raises has not
  initialized again: it made no upload and created no assistant, and the actor (file
  mapping and assistant id included) is as before.
\<close>

theorem run_analysis_skips_initialize:
  assumes "truthy (assistant_id a)"
  shows "(run_analysis_v1 max_retries b a thread = Some (res1, a1, log1)
            \<longrightarrow> a1 = a \<and> filter is_initialization log1 = [])
       \<and> (run_analysis_v2 b a thread = Some (res2, a2, log2)
            \<longrightarrow> a2 = a \<and> filter is_initialization log2 = [])"
  using assms
    run_analysis_with_initialized [of "wait_v1 max_retries 0" a extract_v1 b thread res1 a1 log1]
    run_analysis_with_initialized [of wait_v2 a extract_v2 b thread res2 a2 log2]
    wait_v1_log wait_v2_log
  unfolding run_analysis_v1_def run_analysis_v2_def
  by blast

theorem run_analysis_skips_initialize_witness:
  "truthy (assistant_id initialized_actor)
   \<and> run_analysis_v1 3 second_backend initialized_actor None =
       Some (Inr (Reply ''42 customers'' ''thread_2'' ''run_2''), initialized_actor,
         [ThreadsCreate, MessagesCreate ''thread_2'', RunsCreate ''thread_2'' (Some ''asst_1''),
          RunsRetrieve ''thread_2'' ''run_2'', RunsRetrieve ''thread_2'' ''run_2'',
          RunsRetrieve ''thread_2'' ''run_2'', MessagesList ''thread_2''])
   \<and> run_analysis_v2 second_backend initialized_actor None =
       Some (Inr (Reply ''42 customers'' ''thread_2'' ''run_2''), initialized_actor,
         [ThreadsCreate, MessagesCreate ''thread_2'', RunsCreate ''thread_2'' (Some ''asst_1''),
          RunsRetrieve ''thread_2'' ''run_2'', RunsRetrieve ''thread_2'' ''run_2'',
          RunsRetrieve ''thread_2'' ''run_2'', MessagesList ''thread_2''])"
  using run_analysis_skips_initialize [of initialized_actor 3 second_backend None]
  by (simp add: run_analysis_v1_def run_analysis_v2_def run_analysis_with_def
      second_backend_def initialized_actor_def truthy_def try_poll_def failure_statuses_def
      extract_v1_def extract_v2_def is_assistant_def part_text_def)

subsection \<open>Terminal run states\<close>

text \<open>
  Version 2 does what the specification says: the loop ends at the first poll that is
  not \<open>still_running\<close>, with success on \<^verbatim>\<open>completed\<close> and with the run failure carrying
  the status on \<^verbatim>\<open>failed\<close>, \<^verbatim>\<open>expired\<close> and \<^verbatim>\<open>cancelled\<close>.
\<close>

lemma wait_v2_skips:
  "list_all still_running pre \<Longrightarrow>
   wait_v2 t r (pre @ polls) log =
     wait_v2 t r polls (log @ replicate (length pre) (RunsRetrieve t r))"
proof (induction pre arbitrary: log)
  case Nil
  then show ?case by simp
next
  case (Cons p pre)
  then show ?case
    by (cases p) (auto simp: still_running_def replicate_append_same)
qed

lemma wait_v2_terminal:
  assumes "list_all still_running pre"
  shows "wait_v2 t r (pre @ Status ''completed'' # rest) [] =
           Some (Inr (), replicate (Suc (length pre)) (RunsRetrieve t r))"
    and "s \<in> set failure_statuses \<Longrightarrow>
         wait_v2 t r (pre @ Status s # rest) [] =
           Some (Inl (RunFailed s), replicate (Suc (length pre)) (RunsRetrieve t r))"
  using assms by (auto simp: wait_v2_skips replicate_append_same failure_statuses_def)

text \<open>
  C1 fails in version 1. The \<^verbatim>\<open>raise\<close> for a failure status stands inside the \<^verbatim>\<open>try\<close>
  whose handler retries: a run that has failed is polled again, and with the default
  \<^verbatim>\<open>max_retries = 3\<close> the call ends after three polls with
  \<^verbatim>\<open>Max retries reached: Run failed with status: failed\<close>. Version 2, on the same
  replies, raises \<^verbatim>\<open>Run failed with status: failed\<close> at the first poll.
\<close>

theorem v1_retries_failed_run:
  "run_analysis_v1 3 failed_backend initialized_actor None =
     Some (Inl (MaxRetriesAfter (RunFailed ''failed'')), initialized_actor,
       [ThreadsCreate, MessagesCreate ''thread_2'', RunsCreate ''thread_2'' (Some ''asst_1''),
        RunsRetrieve ''thread_2'' ''run_2'', RunsRetrieve ''thread_2'' ''run_2'',
        RunsRetrieve ''thread_2'' ''run_2''])
   \<and> run_analysis_v2 failed_backend initialized_actor None =
     Some (Inl (RunFailed ''failed''), initialized_actor,
       [ThreadsCreate, MessagesCreate ''thread_2'', RunsCreate ''thread_2'' (Some ''asst_1''),
        RunsRetrieve ''thread_2'' ''run_2''])"
  by (simp add: run_analysis_v1_def run_analysis_v2_def run_analysis_with_def
      failed_backend_def second_backend_def initialized_actor_def truthy_def try_poll_def
      failure_statuses_def)

subsection \<open>The planner\<close>

lemma find_data_first:
  "find_best_actor_for_data caps dt =
     (case first_actor (\<lambda>c. dt \<in> set (supported_data_types c)) caps of
        None \<Rightarrow> Inl (ValueError (''No actor found for data type: '' @ data_name dt))
      | Some n \<Rightarrow> Inr n)"
  by (induction caps dt rule: find_best_actor_for_data.induct) (auto simp: first_actor_def)

lemma find_analysis_first:
  "find_best_actor_for_analysis caps an =
     (case first_actor (\<lambda>c. an \<in> set (supported_analyses c)) caps of
        None \<Rightarrow> Inl (ValueError (''No actor found for analysis: '' @ analysis_name an))
      | Some n \<Rightarrow> Inr n)"
  by (induction caps an rule: find_best_actor_for_analysis.induct) (auto simp: first_actor_def)

lemma data_steps_shape:
  "data_steps caps rd steps handled = Inr (steps', handled') \<Longrightarrow>
   (\<exists>new. steps' = steps @ new \<and> length new = length rd
      \<and> (\<forall>i<length rd. Some (actor_name (new ! i))
              = first_actor (\<lambda>c. rd ! i \<in> set (supported_data_types c)) caps
          \<and> required_data (new ! i) = [rd ! i] \<and> depends_on (new ! i) = []))
   \<and> set handled' = set handled \<union> set rd"
proof (induction rd arbitrary: steps handled)
  case Nil
  then show ?case by simp
next
  case (Cons dt rd)
  from Cons.prems obtain actor where
    a: "find_best_actor_for_data caps dt = Inr actor"
    and r: "data_steps caps rd (steps @ [retrieve_step actor dt]) (List.insert dt handled)
              = Inr (steps', handled')"
    by (auto split: sum.splits)
  from a have fa: "first_actor (\<lambda>c. dt \<in> set (supported_data_types c)) caps = Some actor"
    by (simp add: find_data_first split: option.splits)
  from Cons.IH [OF r] obtain new where
    n: "steps' = (steps @ [retrieve_step actor dt]) @ new" "length new = length rd"
      "\<forall>i<length rd. Some (actor_name (new ! i))
              = first_actor (\<lambda>c. rd ! i \<in> set (supported_data_types c)) caps
          \<and> required_data (new ! i) = [rd ! i] \<and> depends_on (new ! i) = []"
      and h: "set handled' = set (List.insert dt handled) \<union> set rd"
    by blast
  let ?new = "retrieve_step actor dt # new"
  have "steps' = steps @ ?new" using n(1) by simp
  moreover have "length ?new = length (dt # rd)" using n(2) by simp
  moreover have "\<forall>i<length (dt # rd). Some (actor_name (?new ! i))
              = first_actor (\<lambda>c. (dt # rd) ! i \<in> set (supported_data_types c)) caps
          \<and> required_data (?new ! i) = [(dt # rd) ! i] \<and> depends_on (?new ! i) = []"
    using n(3) fa by (auto simp: nth_Cons retrieve_step_def split: nat.splits)
  ultimately have "\<exists>new. steps' = steps @ new \<and> length new = length (dt # rd)
      \<and> (\<forall>i<length (dt # rd). Some (actor_name (new ! i))
              = first_actor (\<lambda>c. (dt # rd) ! i \<in> set (supported_data_types c)) caps
          \<and> required_data (new ! i) = [(dt # rd) ! i] \<and> depends_on (new ! i) = [])"
    by blast
  moreover have "set handled' = set handled \<union> set (dt # rd)"
    using h by auto
  ultimately show ?case by blast
qed

lemma analysis_steps_shape:
  "analysis_steps caps ra steps handled = Inr steps' \<Longrightarrow>
   \<exists>new. steps' = steps @ new \<and> length new = length ra
      \<and> (\<forall>j<length ra. Some (actor_name (new ! j))
              = first_actor (\<lambda>c. ra ! j \<in> set (supported_analyses c)) caps
          \<and> required_data (new ! j) = handled
          \<and> depends_on (new ! j) = map actor_name (filter (touches handled) (steps @ take j new)))"
proof (induction ra arbitrary: steps)
  case Nil
  then show ?case by simp
next
  case (Cons an ra)
  let ?deps = "map actor_name (filter (touches handled) steps)"
  from Cons.prems obtain actor where
    a: "find_best_actor_for_analysis caps an = Inr actor"
    and r: "analysis_steps caps ra (steps @ [perform_step actor an handled ?deps]) handled
              = Inr steps'"
    by (auto split: sum.splits)
  let ?s = "perform_step actor an handled ?deps"
  from a have fa: "first_actor (\<lambda>c. an \<in> set (supported_analyses c)) caps = Some actor"
    by (simp add: find_analysis_first split: option.splits)
  from Cons.IH [OF r] obtain new where
    n: "steps' = (steps @ [?s]) @ new" "length new = length ra"
      "\<forall>j<length ra. Some (actor_name (new ! j))
              = first_actor (\<lambda>c. ra ! j \<in> set (supported_analyses c)) caps
          \<and> required_data (new ! j) = handled
          \<and> depends_on (new ! j)
              = map actor_name (filter (touches handled) ((steps @ [?s]) @ take j new))"
    by blast
  have "steps' = steps @ (?s # new)" using n(1) by simp
  moreover have "length (?s # new) = length (an # ra)" using n(2) by simp
  moreover have "\<forall>j<length (an # ra). Some (actor_name ((?s # new) ! j))
              = first_actor (\<lambda>c. (an # ra) ! j \<in> set (supported_analyses c)) caps
          \<and> required_data ((?s # new) ! j) = handled
          \<and> depends_on ((?s # new) ! j)
              = map actor_name (filter (touches handled) (steps @ take j (?s # new)))"
    using n(3) fa by (auto simp: nth_Cons perform_step_def split: nat.splits)
  ultimately show ?case by blast
qed


lemma create_execution_steps_shape:
  assumes "create_execution_steps caps rd ra = Inr steps"
  shows "\<exists>dsteps asteps handled.
    steps = dsteps @ asteps \<and> length dsteps = length rd \<and> length asteps = length ra
    \<and> set handled = set rd
    \<and> (\<forall>i<length rd.
       Some (actor_name (dsteps ! i))
         = first_actor (\<lambda>c. rd ! i \<in> set (supported_data_types c)) caps
       \<and> required_data (dsteps ! i) = [rd ! i] \<and> depends_on (dsteps ! i) = [])
    \<and> (\<forall>j<length ra.
       Some (actor_name (asteps ! j))
         = first_actor (\<lambda>c. ra ! j \<in> set (supported_analyses c)) caps
       \<and> required_data (asteps ! j) = handled
       \<and> depends_on (asteps ! j)
           = map actor_name (filter (touches handled) (dsteps @ take j asteps)))"
proof -
  from assms obtain dsteps handled where
    d: "data_steps caps rd [] [] = Inr (dsteps, handled)"
    and a: "analysis_steps caps ra dsteps handled = Inr steps"
    by (auto simp: create_execution_steps_def split: sum.splits)
  from data_steps_shape [OF d] have
    d1: "length dsteps = length rd"
    and d2: "\<forall>i<length rd.
       Some (actor_name (dsteps ! i))
         = first_actor (\<lambda>c. rd ! i \<in> set (supported_data_types c)) caps
       \<and> required_data (dsteps ! i) = [rd ! i] \<and> depends_on (dsteps ! i) = []"
    and d3: "set handled = set rd"
    by auto
  from analysis_steps_shape [OF a] obtain asteps where
    "steps = dsteps @ asteps" "length asteps = length ra"
    "\<forall>j<length ra.
       Some (actor_name (asteps ! j))
         = first_actor (\<lambda>c. ra ! j \<in> set (supported_analyses c)) caps
       \<and> required_data (asteps ! j) = handled
       \<and> depends_on (asteps ! j)
           = map actor_name (filter (touches handled) (dsteps @ take j asteps))"
    by blast
  with d1 d2 d3 show ?thesis by blast
qed

lemma data_steps_succeed:
  "\<forall>dt\<in>set rd. first_actor (\<lambda>c. dt \<in> set (supported_data_types c)) caps \<noteq> None \<Longrightarrow>
   \<exists>res. data_steps caps rd steps handled = Inr res"
  by (induction rd arbitrary: steps handled)
     (auto simp: find_data_first split: option.splits sum.splits)

lemma analysis_steps_succeed:
  "\<forall>an\<in>set ra. first_actor (\<lambda>c. an \<in> set (supported_analyses c)) caps \<noteq> None \<Longrightarrow>
   \<exists>res. analysis_steps caps ra steps handled = Inr res"
  by (induction ra arbitrary: steps)
     (auto simp: find_analysis_first split: option.splits sum.splits)

lemma data_steps_error:
  "data_steps caps rd steps handled = Inl e \<Longrightarrow>
   \<exists>m. e = ValueError (''No actor found for '' @ m)"
  by (induction rd arbitrary: steps handled)
     (auto simp: find_data_first split: option.splits sum.splits)

lemma analysis_steps_error:
  "analysis_steps caps ra steps handled = Inl e \<Longrightarrow>
   \<exists>m. e = ValueError (''No actor found for '' @ m)"
  by (induction ra arbitrary: steps)
     (auto simp: find_analysis_first split: option.splits sum.splits)

lemma create_execution_steps_error:
  "create_execution_steps caps rd ra = Inl e \<Longrightarrow>
   \<exists>m. e = ValueError (''No actor found for '' @ m)"
  by (auto simp: create_execution_steps_def split: sum.splits
      dest: data_steps_error analysis_steps_error)

lemma create_execution_steps_succeed:
  assumes "\<forall>dt\<in>set rd. first_actor (\<lambda>c. dt \<in> set (supported_data_types c)) caps \<noteq> None"
    and "\<forall>an\<in>set ra. first_actor (\<lambda>c. an \<in> set (supported_analyses c)) caps \<noteq> None"
  shows "\<exists>steps. create_execution_steps caps rd ra = Inr steps"
proof -
  from data_steps_succeed [OF assms(1)] obtain dsteps handled where
    "data_steps caps rd [] [] = Inr (dsteps, handled)" by fastforce
  moreover from analysis_steps_succeed [OF assms(2)] obtain steps where
    "analysis_steps caps ra dsteps handled = Inr steps" by fastforce
  ultimately show ?thesis by (simp add: create_execution_steps_def)
qed

text \<open>
  C4. When plan creation succeeds there is one step per required data type followed by
  one per required analysis, and each step's actor is the first registered actor, in
  registration order, that supports the type. Plan creation fails, with the planner's
  no-actor \<^verbatim>\<open>ValueError\<close> and no plan, exactly when some required data type or some
  required analysis is supported by no registered actor.
\<close>

theorem planner_picks_first_capable_actor:
  "(\<forall>steps. create_execution_steps caps rd ra = Inr steps \<longrightarrow>
      length steps = length rd + length ra
      \<and> (\<forall>i<length rd. Some (actor_name (steps ! i))
            = first_actor (\<lambda>c. rd ! i \<in> set (supported_data_types c)) caps)
      \<and> (\<forall>j<length ra. Some (actor_name (steps ! (length rd + j)))
            = first_actor (\<lambda>c. ra ! j \<in> set (supported_analyses c)) caps))
   \<and> (((\<exists>dt\<in>set rd. first_actor (\<lambda>c. dt \<in> set (supported_data_types c)) caps = None)
        \<or> (\<exists>an\<in>set ra. first_actor (\<lambda>c. an \<in> set (supported_analyses c)) caps = None))
       \<longleftrightarrow> (\<exists>m. create_execution_steps caps rd ra
                  = Inl (ValueError (''No actor found for '' @ m))))"
  (is "?assigned \<and> (?missing \<longleftrightarrow> ?fails)")
proof (rule conjI)
  show ?assigned
  proof (rule allI, rule impI)
    fix steps
    assume ok: "create_execution_steps caps rd ra = Inr steps"
    from create_execution_steps_shape [OF ok]
    show "length steps = length rd + length ra
      \<and> (\<forall>i<length rd. Some (actor_name (steps ! i))
            = first_actor (\<lambda>c. rd ! i \<in> set (supported_data_types c)) caps)
      \<and> (\<forall>j<length ra. Some (actor_name (steps ! (length rd + j)))
            = first_actor (\<lambda>c. ra ! j \<in> set (supported_analyses c)) caps)"
      by (auto simp: nth_append)
  qed
next
  show "?missing \<longleftrightarrow> ?fails"
  proof
    assume missing: ?missing
    have "\<not> (\<exists>steps. create_execution_steps caps rd ra = Inr steps)"
    proof
      assume "\<exists>steps. create_execution_steps caps rd ra = Inr steps"
      then obtain steps where ok: "create_execution_steps caps rd ra = Inr steps" ..
      from create_execution_steps_shape [OF ok] have "\<forall>i<length rd.
          first_actor (\<lambda>c. rd ! i \<in> set (supported_data_types c)) caps \<noteq> None"
        by (metis option.distinct(1))
      moreover from create_execution_steps_shape [OF ok] have "\<forall>j<length ra.
          first_actor (\<lambda>c. ra ! j \<in> set (supported_analyses c)) caps \<noteq> None"
        by (metis option.distinct(1))
      ultimately show False
        using missing by (metis in_set_conv_nth)
    qed
    then obtain e where "create_execution_steps caps rd ra = Inl e"
      by (cases "create_execution_steps caps rd ra") auto
    with create_execution_steps_error [of caps rd ra e]
    show ?fails by auto
  next
    assume ?fails
    then show ?missing
      using create_execution_steps_succeed [of rd caps ra] by force
  qed
qed

lemma filter_all: "\<forall>x\<in>set xs. P x \<Longrightarrow> filter P xs = xs"
  by (induction xs) auto

text \<open>
  C5, amended. The \<open>j\<close>-th analysis step depends on the actors of all steps scheduled before
  it, in order: the data steps and the analysis steps before it (each of these requires
  the handled data, so the filter keeps it). With no required data type the list is empty.
  For the first analysis step this is exactly the list of the data steps' actors.
\<close>

theorem analysis_step_depends_on_all_earlier_steps:
  assumes "create_execution_steps caps rd ra = Inr steps" and "j < length ra"
  shows "depends_on (steps ! (length rd + j))
           = (if rd = [] then [] else map actor_name (take (length rd + j) steps))"
proof -
  from create_execution_steps_shape [OF assms(1)] obtain dsteps asteps handled where
    s: "steps = dsteps @ asteps" and ld: "length dsteps = length rd"
    and la: "length asteps = length ra" and h: "set handled = set rd"
    and d: "\<And>i. i < length rd \<Longrightarrow>
       Some (actor_name (dsteps ! i))
         = first_actor (\<lambda>c. rd ! i \<in> set (supported_data_types c)) caps
       \<and> required_data (dsteps ! i) = [rd ! i] \<and> depends_on (dsteps ! i) = []"
    and a: "\<And>j. j < length ra \<Longrightarrow>
       Some (actor_name (asteps ! j))
         = first_actor (\<lambda>c. ra ! j \<in> set (supported_analyses c)) caps
       \<and> required_data (asteps ! j) = handled
       \<and> depends_on (asteps ! j)
           = map actor_name (filter (touches handled) (dsteps @ take j asteps))"
    by blast
  have dep: "depends_on (steps ! (length rd + j))
      = map actor_name (filter (touches handled) (dsteps @ take j asteps))"
    using a [OF assms(2)] s ld by (simp add: nth_append)
  have tk: "take (length rd + j) steps = dsteps @ take j asteps"
    using s ld by simp
  show ?thesis
  proof (cases "rd = []")
    case True
    with h have "handled = []" by simp
    then have "filter (touches handled) (dsteps @ take j asteps) = []"
      by (simp add: touches_def)
    with dep True show ?thesis by simp
  next
    case False
    with h obtain x where x: "x \<in> set handled" by (cases rd) auto
    have "\<forall>st\<in>set (dsteps @ take j asteps). touches handled st"
    proof
      fix st assume "st \<in> set (dsteps @ take j asteps)"
      then consider "st \<in> set dsteps" | "st \<in> set (take j asteps)" by auto
      then show "touches handled st"
      proof cases
        case 1
        then obtain i where "i < length rd" "st = dsteps ! i"
          using ld by (metis in_set_conv_nth)
        with d [of i] h show ?thesis
          by (auto simp: touches_def list_ex_iff)
      next
        case 2
        then obtain k where "k < length ra" "st = asteps ! k"
          using la by (metis in_set_conv_nth in_set_takeD)
        with a [of k] x show ?thesis
          by (auto simp: touches_def list_ex_iff)
      qed
    qed
    then have "filter (touches handled) (dsteps @ take j asteps) = dsteps @ take j asteps"
      by (rule filter_all)
    with dep have "depends_on (steps ! (length rd + j)) = map actor_name (dsteps @ take j asteps)"
      by (simp only:)
    with tk False show ?thesis by (simp only: if_False)
  qed
qed

text \<open>
  C6. In every plan the planner produces, the names in a step's \<^verbatim>\<open>depends_on\<close> are actor
  names of steps strictly earlier in the list.
\<close>

theorem depends_on_refers_to_earlier_steps:
  assumes "create_execution_steps caps rd ra = Inr steps" and "i < length steps"
  shows "set (depends_on (steps ! i)) \<subseteq> set (map actor_name (take i steps))"
proof -
  from create_execution_steps_shape [OF assms(1)] obtain dsteps asteps handled where
    s: "steps = dsteps @ asteps" and ld: "length dsteps = length rd"
    and la: "length asteps = length ra"
    and d: "\<And>i. i < length rd \<Longrightarrow>
       Some (actor_name (dsteps ! i))
         = first_actor (\<lambda>c. rd ! i \<in> set (supported_data_types c)) caps
       \<and> required_data (dsteps ! i) = [rd ! i] \<and> depends_on (dsteps ! i) = []"
    and a: "\<And>j. j < length ra \<Longrightarrow>
       Some (actor_name (asteps ! j))
         = first_actor (\<lambda>c. ra ! j \<in> set (supported_analyses c)) caps
       \<and> required_data (asteps ! j) = handled
       \<and> depends_on (asteps ! j)
           = map actor_name (filter (touches handled) (dsteps @ take j asteps))"
    by blast
  show ?thesis
  proof (cases "i < length rd")
    case True
    with d [of i] s ld show ?thesis by (simp add: nth_append)
  next
    case False
    define j where "j = i - length rd"
    with False assms(2) s ld la have j: "j < length ra" "i = length rd + j" by auto
    have "depends_on (steps ! i)
        = map actor_name (filter (touches handled) (dsteps @ take j asteps))"
      using a [OF j(1)] s ld j(2) by (simp add: nth_append)
    moreover have "take i steps = dsteps @ take j asteps"
      using s ld j(2) by simp
    ultimately show ?thesis by auto
  qed
qed


lemmas planner_eval = create_execution_steps_def example_capabilities_def register_actor_def
      retrieve_step_def perform_step_def touches_def lower_def lower_char_def

text \<open>
  C5 as stated fails for the second analysis step: with one data step (actor
  \<^verbatim>\<open>customer\<close>) and two analyses, the second analysis step depends on \<^verbatim>\<open>customer\<close> and on
  \<^verbatim>\<open>organization\<close>, the actor of the first analysis step.
\<close>

theorem later_analysis_step_counterexample:
  "create_execution_steps example_capabilities [DataType ''CUSTOMER'']
       [AnalysisType ''GEOGRAPHIC'', AnalysisType ''STATISTICAL''] = Inr two_analyses_plan
   \<and> map actor_name (take 1 two_analyses_plan) = [''customer'']
   \<and> depends_on (two_analyses_plan ! 2) = [''customer'', ''organization'']"
  by (simp add: planner_eval two_analyses_plan_def)

theorem planner_picks_first_capable_actor_witness:
  "create_execution_steps example_capabilities
       [DataType ''CUSTOMER'', DataType ''ORGANIZATION''] [AnalysisType ''GEOGRAPHIC'']
     = Inr scenario_plan
   \<and> first_actor (\<lambda>c. DataType ''ORGANIZATION'' \<in> set (supported_data_types c))
        example_capabilities = Some (actor_name (scenario_plan ! 1))
   \<and> first_actor (\<lambda>c. DataType ''PRODUCT'' \<in> set (supported_data_types c))
        example_capabilities = None
   \<and> create_execution_steps example_capabilities [DataType ''PRODUCT''] []
     = Inl (ValueError ''No actor found for data type: PRODUCT'')"
  using planner_picks_first_capable_actor [of example_capabilities
      "[DataType ''CUSTOMER'', DataType ''ORGANIZATION'']" "[AnalysisType ''GEOGRAPHIC'']"]
    planner_picks_first_capable_actor [of example_capabilities "[DataType ''PRODUCT'']" "[]"]
  by (simp add: planner_eval scenario_plan_def first_actor_def)

theorem analysis_step_depends_on_all_earlier_steps_witness:
  "create_execution_steps example_capabilities [DataType ''CUSTOMER'']
       [AnalysisType ''GEOGRAPHIC'', AnalysisType ''STATISTICAL''] = Inr two_analyses_plan
   \<and> (1::nat) < length [AnalysisType ''GEOGRAPHIC'', AnalysisType ''STATISTICAL'']
   \<and> depends_on (two_analyses_plan ! 2) = map actor_name (take 2 two_analyses_plan)"
  using analysis_step_depends_on_all_earlier_steps [of example_capabilities
      "[DataType ''CUSTOMER'']" "[AnalysisType ''GEOGRAPHIC'', AnalysisType ''STATISTICAL'']"
      two_analyses_plan 1]
  by (simp add: planner_eval two_analyses_plan_def)

theorem depends_on_refers_to_earlier_steps_witness:
  "create_execution_steps example_capabilities
       [DataType ''CUSTOMER'', DataType ''ORGANIZATION''] [AnalysisType ''GEOGRAPHIC'']
     = Inr scenario_plan
   \<and> 2 < length scenario_plan
   \<and> set (depends_on (scenario_plan ! 2)) \<subseteq> set (map actor_name (take 2 scenario_plan))"
  using depends_on_refers_to_earlier_steps [of example_capabilities
      "[DataType ''CUSTOMER'', DataType ''ORGANIZATION'']" "[AnalysisType ''GEOGRAPHIC'']"
      scenario_plan 2]
  by (simp add: planner_eval scenario_plan_def)

subsection \<open>Fenced answers\<close>

lemma fence_not_at_end:
  assumes "\<not> prefix fence (c # cs)" and "last (c # cs) \<noteq> CHR 0x60"
  shows "\<not> prefix fence (c # cs @ fence)"
proof (cases cs)
  case Nil
  with assms show ?thesis by (auto simp: fence_def)
next
  case outer: (Cons d ds)
  show ?thesis
  proof (cases ds)
    case Nil
    with outer assms show ?thesis by (auto simp: fence_def)
  next
    case (Cons e es)
    with outer assms show ?thesis by (auto simp: fence_def)
  qed
qed

lemma split_at_end:
  "\<not> py_in fence P \<Longrightarrow> P = [] \<or> last P \<noteq> CHR 0x60 \<Longrightarrow>
   split_at fence (P @ fence) = Some (P, [])"
proof (induction P)
  case Nil
  then show ?case by (simp add: fence_def)
next
  case (Cons c cs)
  from Cons.prems have np: "\<not> prefix fence (c # cs)" and nin: "\<not> py_in fence cs"
    and l: "last (c # cs) \<noteq> CHR 0x60"
    by auto
  from l have "cs = [] \<or> last cs \<noteq> CHR 0x60" by (cases cs) auto
  with Cons.IH nin have "split_at fence (cs @ fence) = Some (cs, [])" by simp
  moreover from np l have "\<not> prefix fence (c # cs @ fence)" by (rule fence_not_at_end)
  ultimately show ?case by simp
qed

lemma py_in_fence_prefix: "py_in fence (fence @ s)"
  by (simp add: fence_def)

lemma split_at_start: "split_at fence (fence @ s) = Some ([], s)"
  by (simp add: fence_def)

lemma search_fenced_tagged:
  assumes "\<not> py_in fence P" and "P = [] \<or> last P \<noteq> CHR 0x60"
  shows "search_fenced (fence @ ''json'' @ P @ fence) = Some P"
  using split_at_end [OF assms] by (simp add: search_fenced_def split_at_start)

lemma search_fenced_untagged:
  assumes "\<not> py_in fence P" and "P = [] \<or> last P \<noteq> CHR 0x60" and "\<not> prefix ''json'' P"
  shows "search_fenced (fence @ P @ fence) = Some P"
proof -
  from assms(3) have "\<not> prefix ''json'' (P @ fence)"
    by (cases P; cases "tl P"; cases "tl (tl P)"; cases "tl (tl (tl P))")
       (auto simp: fence_def)
  with split_at_end [OF assms(1,2)] show ?thesis
    by (simp add: search_fenced_def split_at_start)
qed

lemma fenced_payload_cleans_like_unfenced:
  assumes "\<not> py_in fence P" and "P = [] \<or> last P \<noteq> CHR 0x60"
  shows "clean_json_response (fence @ ''json'' @ P @ fence) = clean_json_response P
       \<and> (\<not> prefix ''json'' P \<longrightarrow>
            clean_json_response (fence @ P @ fence) = clean_json_response P)"
  using assms search_fenced_tagged [OF assms] search_fenced_untagged [OF assms]
    py_in_fence_prefix [of "''json'' @ P @ fence"] py_in_fence_prefix [of "P @ fence"]
  by (simp add: clean_json_response_def)

text \<open>
  C9, amended. For a payload that holds no fence and does not end in a backquote, the
  answer fenced with the \<^verbatim>\<open>json\<close> tag is cleaned to the same text as the unfenced payload
  and so gives the same required data types and analyses (or the same error), whatever
  the parser; without the tag the same holds when the payload does not begin with the
  letters \<^verbatim>\<open>json\<close>. A JSON object text ends in a brace and begins with one.
\<close>

theorem fenced_payload_like_unfenced:
  assumes "\<not> py_in fence P" and "P = [] \<or> last P \<noteq> CHR 0x60"
  shows "clean_json_response (fence @ ''json'' @ P @ fence) = clean_json_response P
       \<and> analyze_query_requirements loads data_types analysis_types (fence @ ''json'' @ P @ fence)
           = analyze_query_requirements loads data_types analysis_types P
       \<and> (\<not> prefix ''json'' P \<longrightarrow>
            clean_json_response (fence @ P @ fence) = clean_json_response P
            \<and> analyze_query_requirements loads data_types analysis_types (fence @ P @ fence)
                = analyze_query_requirements loads data_types analysis_types P)"
  using fenced_payload_cleans_like_unfenced [OF assms]
  by (simp add: analyze_query_requirements_def)

lemma plain_payload_facts:
  "\<not> py_in fence plain_payload" "last plain_payload \<noteq> CHR 0x60" "\<not> prefix ''json'' plain_payload"
  by (simp_all add: plain_payload_def fence_def)

lemma plain_payload_analysis:
  "analyze_query_requirements json_fragment_loads [''CUSTOMER'', ''ORGANIZATION''] [''GEOGRAPHIC'']
     plain_payload = Inr ([DataType ''CUSTOMER''], [AnalysisType ''GEOGRAPHIC''])"
  by code_simp

theorem fenced_payload_like_unfenced_witness:
  "\<not> py_in fence plain_payload \<and> last plain_payload \<noteq> CHR 0x60
   \<and> \<not> prefix ''json'' plain_payload
   \<and> analyze_query_requirements json_fragment_loads [''CUSTOMER'', ''ORGANIZATION'']
        [''GEOGRAPHIC''] (fence @ ''json'' @ plain_payload @ fence)
       = Inr ([DataType ''CUSTOMER''], [AnalysisType ''GEOGRAPHIC''])
   \<and> analyze_query_requirements json_fragment_loads [''CUSTOMER'', ''ORGANIZATION'']
        [''GEOGRAPHIC''] (fence @ plain_payload @ fence)
       = Inr ([DataType ''CUSTOMER''], [AnalysisType ''GEOGRAPHIC''])"
  using fenced_payload_like_unfenced [of plain_payload json_fragment_loads
      "[''CUSTOMER'', ''ORGANIZATION'']" "[''GEOGRAPHIC'']"]
    plain_payload_facts plain_payload_analysis
  by simp

text \<open>
  C9 as stated fails for a valid payload that holds a fence inside a string: unfenced it
  is left as it is and parses; fenced, the match ends at the payload's own fence, the
  text is cut there and no longer parses.
\<close>

theorem fenced_payload_counterexample:
  "analyze_query_requirements json_fragment_loads [''CUSTOMER'', ''ORGANIZATION'']
     [''GEOGRAPHIC''] noted_payload
     = Inr ([DataType ''CUSTOMER''], [AnalysisType ''GEOGRAPHIC''])
   \<and> analyze_query_requirements json_fragment_loads [''CUSTOMER'', ''ORGANIZATION'']
        [''GEOGRAPHIC''] (''```json'' @ noted_payload @ ''```'')
     = Inl (ValueError ''Failed to parse LLM response'')"
  by code_simp

subsection \<open>Threads of the orchestrator\<close>

lemma upload_all_calls:
  "upload_all b ps ids a log = (res, a', log') \<Longrightarrow> list_all (uses_thread t) log
   \<Longrightarrow> list_all (uses_thread t) log'"
  by (induction ps arbitrary: ids a log)
     (auto simp: upload_file_def split: option.splits prod.splits sum.splits)

lemma initialize_calls:
  "initialize b a = (res, a', log) \<Longrightarrow> list_all (uses_thread t) log"
  by (auto simp: initialize_def split: prod.splits sum.splits option.splits
      dest!: upload_all_calls [where t = t])

lemma wait_v2_calls:
  "wait_v2 t r polls log = Some (res, log') \<Longrightarrow> list_all (uses_thread t) log
   \<Longrightarrow> list_all (uses_thread t) log'"
  by (induction t r polls log rule: wait_v2.induct) (auto split: if_splits)

lemma wait_v1_calls:
  "wait_v1 m n t r polls log = Some (res, log') \<Longrightarrow> list_all (uses_thread t) log
   \<Longrightarrow> list_all (uses_thread t) log'"
  by (induction m n t r polls log rule: wait_v1.induct)
     (auto split: if_splits try_result.splits)

lemma run_analysis_with_thread:
  assumes w: "\<And>t r polls log res log'. wait t r polls log = Some (res, log') \<Longrightarrow>
      list_all (uses_thread t) log \<Longrightarrow> list_all (uses_thread t) log'"
    and e: "\<And>msgs t r. recorded (Inr (extract msgs t r)) = None
                \<or> recorded (Inr (extract msgs t r)) = Some t"
    and run: "run_analysis_with wait extract b a (Some t) = Some (res, a', log)"
    and t: "t \<noteq> []"
  shows "list_all (uses_thread t) log \<and> (recorded res = None \<or> recorded res = Some t)"
proof -
  obtain r0 a1 log0 where i: "(if \<not> truthy (assistant_id a) then initialize b a else (Inr (), a, []))
      = (r0, a1, log0)"
    by (metis prod_cases3)
  then have l0: "list_all (uses_thread t) log0"
    by (auto split: if_splits dest: initialize_calls)
  show ?thesis
    using run t i l0 e
    by (auto simp: run_analysis_with_def truthy_def recorded_def
        split: sum.splits option.splits prod.splits if_splits
        dest!: w)
qed

lemma extract_v1_thread:
  "recorded (Inr (extract_v1 msgs t r)) = None \<or> recorded (Inr (extract_v1 msgs t r)) = Some t"
  by (simp add: extract_v1_def recorded_def split: option.splits)

lemma extract_v2_thread:
  "recorded (Inr (extract_v2 msgs t r)) = None \<or> recorded (Inr (extract_v2 msgs t r)) = Some t"
  by (simp add: extract_v2_def recorded_def split: option.splits)

lemma agent_run_analysis_thread:
  assumes "agent_run_analysis ver b a (Some t) = Some (res, a', log)" and "t \<noteq> []"
  shows "list_all (uses_thread t) log \<and> (recorded res = None \<or> recorded res = Some t)"
proof (cases ver)
  case V1
  with assms show ?thesis
    using run_analysis_with_thread [of "wait_v1 3 0" extract_v1 b a t res a' log]
      wait_v1_calls extract_v1_thread
    by (simp add: agent_run_analysis_def run_analysis_v1_def)
next
  case V2
  with assms show ?thesis
    using run_analysis_with_thread [of wait_v2 extract_v2 b a t res a' log]
      wait_v2_calls extract_v2_thread
    by (simp add: agent_run_analysis_def run_analysis_v2_def)
qed

lemma stored_add_result [simp]: "threads (add_result c a r) = threads c"
  by (simp add: add_result_def)

lemma execute_actor_other:
  "execute_actor ver b orch a task = Some (out, orch', calls) \<Longrightarrow> a' \<noteq> a \<Longrightarrow>
   stored orch' a' = stored orch a'"
  by (auto simp: execute_actor_def stored_def Let_def update_conv'
      split: option.splits sum.splits prod.splits version.splits if_splits)

lemma execute_actor_fresh:
  "execute_actor ver b orch a task = Some (out, orch', calls) \<Longrightarrow> stored orch a = None \<Longrightarrow>
   stored orch' a = recorded out"
  by (auto simp: execute_actor_def stored_def Let_def update_conv' truthy_def recorded_def
      get_thread_id_def
      split: option.splits sum.splits prod.splits version.splits if_splits
      analysis_result.splits)

lemma execute_actor_reuse:
  assumes ex: "execute_actor ver b orch a task = Some (out, orch', calls)"
    and inv: "threads_set orch" and s: "stored orch a = Some t"
  shows "stored orch' a = Some t \<and> list_all (uses_thread t) calls"
proof -
  from s inv have t: "t \<noteq> []" by (auto simp: threads_set_def)
  show ?thesis
  proof (cases "map_of (actors orch) a")
    case None
    with ex s show ?thesis by (auto simp: execute_actor_def)
  next
    case (Some agent)
    with ex s obtain res agent' where
      run: "agent_run_analysis ver b agent (Some t) = Some (res, agent', calls)"
      by (auto simp: execute_actor_def stored_def Let_def
          split: option.splits prod.splits sum.splits)
    from agent_run_analysis_thread [OF run t] have "list_all (uses_thread t) calls" by simp
    moreover from ex s Some t have "stored orch' a = Some t"
      by (auto simp: execute_actor_def stored_def Let_def truthy_def
          split: option.splits sum.splits prod.splits version.splits)
    ultimately show ?thesis by simp
  qed
qed

lemma recorded_nonempty: "recorded out = Some u \<Longrightarrow> u \<noteq> []"
  by (auto simp: recorded_def split: sum.splits analysis_result.splits if_splits)

lemma execute_actor_inv:
  assumes ex: "execute_actor ver b orch a task = Some (out, orch', calls)"
    and inv: "threads_set orch"
  shows "threads_set orch'"
  unfolding threads_set_def
proof (intro allI impI)
  fix x u assume su: "stored orch' x = Some u"
  show "u \<noteq> []"
  proof (cases "x = a")
    case False
    with execute_actor_other [OF ex, of x] su inv show ?thesis
      by (simp add: threads_set_def)
  next
    case True
    show ?thesis
    proof (cases "stored orch a")
      case None
      with execute_actor_fresh [OF ex] su True show ?thesis
        by (simp add: recorded_nonempty)
    next
      case (Some v)
      with execute_actor_reuse [OF ex inv] su True inv show ?thesis
        by (auto simp: threads_set_def)
    qed
  qed
qed

lemma or_else_assoc: "or_else (or_else x y) z = or_else x (or_else y z)"
  by (simp add: or_else_def split: option.splits)

lemma or_else_None [simp]: "or_else x None = x" "or_else None y = y"
  by (simp_all add: or_else_def split: option.splits)

lemma first_thread_Cons:
  "first_thread a (e # es) =
     or_else (if exec_actor e = a then recorded (exec_outcome e) else None) (first_thread a es)"
  by (auto simp: or_else_def)

lemma execute_actor_stored:
  assumes ex: "execute_actor ver b orch a task = Some (out, orch', calls)"
    and inv: "threads_set orch"
  shows "stored orch' x = or_else (stored orch x) (if a = x then recorded out else None)"
proof (cases "a = x")
  case False
  with execute_actor_other [OF ex, of x] show ?thesis by auto
next
  case True
  show ?thesis
  proof (cases "stored orch a")
    case None
    with execute_actor_fresh [OF ex] True show ?thesis by simp
  next
    case (Some t)
    with execute_actor_reuse [OF ex inv] True show ?thesis by (simp add: or_else_def)
  qed
qed

lemma execute_sequence_threads:
  "execute_sequence ver orch steps = Some (final, trace) \<Longrightarrow> threads_set orch \<Longrightarrow>
   threads_set final
   \<and> (\<forall>a. stored final a = or_else (stored orch a) (first_thread a trace))
   \<and> (\<forall>j<length trace.
         exec_thread (trace ! j)
           = or_else (stored orch (exec_actor (trace ! j)))
                     (first_thread (exec_actor (trace ! j)) (take j trace))
         \<and> (\<forall>t. exec_thread (trace ! j) = Some t
                \<longrightarrow> list_all (uses_thread t) (exec_calls (trace ! j))))"
proof (induction steps arbitrary: orch trace)
  case Nil
  then show ?case by simp
next
  case (Cons step rest)
  obtain b a0 task where step: "step = (b, a0, task)" by (cases step)
  from Cons.prems(1) step obtain out orch1 calls tr' where
    ex: "execute_actor ver b orch a0 task = Some (out, orch1, calls)"
    and seq: "execute_sequence ver orch1 rest = Some (final, tr')"
    and tr: "trace = \<lparr>exec_actor = a0, exec_thread = map_of (threads (ctx orch)) a0,
                      exec_outcome = out, exec_calls = calls\<rparr> # tr'"
    by (auto split: option.splits prod.splits)
  let ?e0 = "\<lparr>exec_actor = a0, exec_thread = map_of (threads (ctx orch)) a0,
                      exec_outcome = out, exec_calls = calls\<rparr>"
  from execute_actor_inv [OF ex Cons.prems(2)] have inv1: "threads_set orch1" .
  note st = execute_actor_stored [OF ex Cons.prems(2)]
  from Cons.IH [OF seq inv1] have
    ih1: "threads_set final"
    and ih2: "\<And>a. stored final a = or_else (stored orch1 a) (first_thread a tr')"
    and ih3: "\<And>j. j < length tr' \<Longrightarrow> exec_thread (tr' ! j)
           = or_else (stored orch1 (exec_actor (tr' ! j)))
                     (first_thread (exec_actor (tr' ! j)) (take j tr'))"
    and ih4: "\<And>j t. j < length tr' \<Longrightarrow> exec_thread (tr' ! j) = Some t
                \<Longrightarrow> list_all (uses_thread t) (exec_calls (tr' ! j))"
    by auto
  have a: "\<forall>a. stored final a = or_else (stored orch a) (first_thread a trace)"
    unfolding tr first_thread_Cons by (simp add: ih2 st or_else_assoc)
  have b: "\<forall>j<length trace.
         exec_thread (trace ! j)
           = or_else (stored orch (exec_actor (trace ! j)))
                     (first_thread (exec_actor (trace ! j)) (take j trace))
         \<and> (\<forall>t. exec_thread (trace ! j) = Some t
                \<longrightarrow> list_all (uses_thread t) (exec_calls (trace ! j)))"
  proof (intro allI impI)
    fix j assume j: "j < length trace"
    show "exec_thread (trace ! j)
           = or_else (stored orch (exec_actor (trace ! j)))
                     (first_thread (exec_actor (trace ! j)) (take j trace))
         \<and> (\<forall>t. exec_thread (trace ! j) = Some t
                \<longrightarrow> list_all (uses_thread t) (exec_calls (trace ! j)))"
    proof (cases j)
      case 0
      then show ?thesis
        using execute_actor_reuse [OF ex Cons.prems(2)]
        by (auto simp: tr stored_def)
    next
      case (Suc i)
      with j tr have i: "i < length tr'" by simp
      from Suc have "trace ! j = tr' ! i" "take j trace = ?e0 # take i tr'"
        by (simp_all add: tr)
      then show ?thesis
        using ih3 [OF i] ih4 [OF i]
        by (simp add: first_thread_Cons st or_else_assoc del: first_thread.simps)
    qed
  qed
  from ih1 a b show ?case by blast
qed

text \<open>
  C2, amended. In every sequence of executions that starts with no thread stored, the
  thread id stored for an actor at the end is the one carried by the first execution for
  that actor whose response carries a thread id; every execution is passed exactly the id
  recorded by then (none before that execution); and an execution that is passed an id
  creates no thread and addresses only that thread.
\<close>

theorem thread_recorded_once_and_reused:
  assumes "execute_sequence ver orch steps = Some (final, trace)"
    and "threads (ctx orch) = []"
  shows "(\<forall>a. stored final a = first_thread a trace)
       \<and> (\<forall>j<length trace.
            exec_thread (trace ! j) = first_thread (exec_actor (trace ! j)) (take j trace)
            \<and> (\<forall>t. exec_thread (trace ! j) = Some t
                   \<longrightarrow> list_all (uses_thread t) (exec_calls (trace ! j))))"
proof -
  from assms(2) have inv: "threads_set orch" and none: "\<And>a. stored orch a = None"
    by (simp_all add: threads_set_def stored_def)
  from execute_sequence_threads [OF assms(1) inv] show ?thesis
    by (simp add: none)
qed

lemma reuse_run:
  "execute_sequence V2 fresh_orchestrator answer_then_silent = Some (reuse_final, reuse_trace)"
  by code_simp

theorem thread_recorded_once_and_reused_witness:
  "execute_sequence V2 fresh_orchestrator answer_then_silent = Some (reuse_final, reuse_trace)
   \<and> threads (ctx fresh_orchestrator) = []
   \<and> stored reuse_final ''customer'' = Some ''thread_2''
   \<and> exec_thread (reuse_trace ! 1) = Some ''thread_2''
   \<and> list_all (uses_thread ''thread_2'') (exec_calls (reuse_trace ! 1))"
  using thread_recorded_once_and_reused [OF reuse_run] reuse_run
  by (simp add: fresh_orchestrator_def new_context_def reuse_final_def reuse_trace_def stored_def)

text \<open>
  C2 as stated fails when the first response carries no thread id. The first execution
  creates \<^verbatim>\<open>thread_1\<close>, finds no assistant message and returns the no-response dictionary:
  nothing is stored. The second execution is passed no thread id, creates \<^verbatim>\<open>thread_2\<close>,
  and that id, from the second response, is the one recorded.
\<close>

theorem first_response_without_thread_counterexample:
  "execute_sequence V2 fresh_orchestrator silent_then_answer =
     Some
      (\<lparr>actors =
          [(''customer'',
            \<lparr>files = [''data/customers-10000.csv''],
             file_mapping =
               [(''file-1'', \<lparr>filename = ''customers-10000.csv'',
                              path = ''data/customers-10000.csv''\<rparr>)],
             assistant_id = Some ''asst_1''\<rparr>)],
        planner = \<lparr>files = [], file_mapping = [], assistant_id = None\<rparr>,
        ctx =
          \<lparr>threads = [(''customer'', ''thread_2'')],
           actor_results =
             [(''customer'', [NoResponse, Reply ''42 customers'' ''thread_2'' ''run_2''])],
           history = [''customer: count customers'', ''customer: count customers'']\<rparr>\<rparr>,
       [\<lparr>exec_actor = ''customer'', exec_thread = None, exec_outcome = Inr NoResponse,
         exec_calls =
           [FilesCreate ''data/customers-10000.csv'', AssistantsCreate [''file-1''],
            ThreadsCreate, MessagesCreate ''thread_1'', RunsCreate ''thread_1'' (Some ''asst_1''),
            RunsRetrieve ''thread_1'' ''run_1'', MessagesList ''thread_1'']\<rparr>,
        \<lparr>exec_actor = ''customer'', exec_thread = None,
         exec_outcome = Inr (Reply ''42 customers'' ''thread_2'' ''run_2''),
         exec_calls =
           [ThreadsCreate, MessagesCreate ''thread_2'', RunsCreate ''thread_2'' (Some ''asst_1''),
            RunsRetrieve ''thread_2'' ''run_2'', RunsRetrieve ''thread_2'' ''run_2'',
            RunsRetrieve ''thread_2'' ''run_2'', MessagesList ''thread_2'']\<rparr>])"
  by code_simp

end
